theory Spec2Isabelle
  imports Main "HOL-Library.AList"
begin

section \<open>Values and Python dictionaries\<close>

text \<open>
  The workflow executor of \<^verbatim>\<open>backend/pyspur/execution/workflow_executor.py\<close>
  is embedded function by function. Python dictionaries keep insertion order, so a
  dictionary is an association list: \<open>map_of\<close> reads a key, \<open>AList.update\<close> writes
  it (in place when the key is present, at the end otherwise, as Python does) and
  \<open>AList.delete\<close> removes it. A Python set is a list without duplicates, read in
  its iteration order; Python leaves that order unspecified, and no theorem below
  relies on it except where the order is written out.
\<close>

text \<open>A \<^verbatim>\<open>datetime\<close> is held by the text \<^verbatim>\<open>isoformat()\<close> returns for it.\<close>

datatype datetime = Datetime (isoformat: string)

text \<open>Keys of dumped dictionaries are strings or integers.\<close>

datatype key = KStr string | KInt int

text \<open>
  The values \<^verbatim>\<open>model_dump()\<close> produces. A tuple stands for the values that are
  neither datetime, set, dict nor list and have parts of their own.
\<close>

datatype pyval =
    PNone
  | PBool bool
  | PInt int
  | PStr string
  | PDatetime datetime
  | PSet "pyval list"
  | PDict "(key \<times> pyval) list"
  | PList "pyval list"
  | PTuple "pyval list"

text \<open>\<^verbatim>\<open>dict(items)\<close>: a later item with an equal key replaces the value of the earlier one.\<close>

definition py_dict :: "('k \<times> 'v) list \<Rightarrow> ('k \<times> 'v) list" where
  "py_dict items = foldl (\<lambda>d kv. AList.update (fst kv) (snd kv) d) [] items"

text \<open>\<^verbatim>\<open>set.add\<close> on a set held as a list.\<close>

definition set_add :: "'a \<Rightarrow> 'a list \<Rightarrow> 'a list" where
  "set_add x xs = (if x \<in> set xs then xs else xs @ [x])"

text \<open>Truthiness of an optional string: \<^verbatim>\<open>None\<close> and \<^verbatim>\<open>""\<close> are false.\<close>

definition truthy :: "string option \<Rightarrow> bool" where
  "truthy s = (case s of None \<Rightarrow> False | Some t \<Rightarrow> t \<noteq> [])"

subsection \<open>\<^verbatim>\<open>str\<close> of a key\<close>

definition digit_char :: "nat \<Rightarrow> char" where
  "digit_char d = char_of (48 + d)"

function str_nat :: "nat \<Rightarrow> string" where
  "str_nat n = (if n < 10 then [digit_char n] else str_nat (n div 10) @ [digit_char (n mod 10)])"
  by pat_completeness auto
termination
  by (relation "measure (\<lambda>n. n)") auto

declare str_nat.simps [simp del]

definition str_int :: "int \<Rightarrow> string" where
  "str_int i = (if i < 0 then CHR ''-'' # str_nat (nat (- i)) else str_nat (nat i))"

fun str_key :: "key \<Rightarrow> string" where
  "str_key (KStr s) = s"
| "str_key (KInt i) = str_int i"

section \<open>The output serializer\<close>

text \<open>
  \<^verbatim>\<open>_serialize_value\<close>, the inner function of \<^verbatim>\<open>_serialize_output\<close>, branch by
  branch: a datetime becomes its ISO text, a set becomes \<^verbatim>\<open>list(val)\<close> (its
  elements as they are), a dict is rebuilt with \<^verbatim>\<open>str(key)\<close> keys and serialized
  values, a list is serialized element by element, anything else is returned.
\<close>

fun serialize_value :: "pyval \<Rightarrow> pyval" where
  "serialize_value (PDatetime d) = PStr (isoformat d)"
| "serialize_value (PSet xs) = PList xs"
| "serialize_value (PDict kvs) =
     PDict (py_dict (map (\<lambda>kv. (KStr (str_key (fst kv)), serialize_value (snd kv))) kvs))"
| "serialize_value (PList xs) = PList (map serialize_value xs)"
| "serialize_value v = v"

text \<open>
  \<^verbatim>\<open>_serialize_output\<close>: \<^verbatim>\<open>None\<close> for no output, otherwise the dumped fields with
  stringified keys and serialized values. The argument is \<^verbatim>\<open>output.model_dump()\<close>.
\<close>

definition serialize_output :: "(key \<times> pyval) list option \<Rightarrow> (key \<times> pyval) list option" where
  "serialize_output output =
     (case output of
        None \<Rightarrow> None
      | Some data \<Rightarrow>
          Some (py_dict (map (\<lambda>kv. (KStr (str_key (fst kv)), serialize_value (snd kv))) data)))"

section \<open>Workflow definitions\<close>

text \<open>
  \<^verbatim>\<open>WorkflowLinkSchema\<close>, \<^verbatim>\<open>WorkflowNodeSchema\<close> and \<^verbatim>\<open>WorkflowDefinitionSchema\<close>
  with the fields the executor reads. A node's \<^verbatim>\<open>config\<close> is a dictionary whose
  values are opaque, except that \<^verbatim>\<open>_process_subworkflows\<close> stores the dump of a
  child workflow under the key \<^verbatim>\<open>subworkflow\<close>. The field \<^verbatim>\<open>id\<close> is named
  \<open>node_id\<close> here.
\<close>

record workflow_link =
  source_id :: string
  target_id :: string
  source_handle :: "string option"

datatype config_value =
    ConfigValue pyval
  | SubworkflowDump "workflow_node list" "workflow_link list"
and workflow_node =
    WorkflowNodeSchema (node_id: string) (title: string) (node_type: string)
      (config: "(string \<times> config_value) list") (parent_id: "string option")

record workflow_definition =
  nodes :: "workflow_node list"
  links :: "workflow_link list"

section \<open>The subworkflow hoisting function\<close>

text \<open>\<^verbatim>\<open>node.model_copy(update={"parent_id": None})\<close>.\<close>

definition clear_parent :: "workflow_node \<Rightarrow> workflow_node" where
  "clear_parent n = WorkflowNodeSchema (node_id n) (title n) (node_type n) (config n) None"



text \<open>
  \<^verbatim>\<open>parent_node.config = {**parent_node.config, "subworkflow": ...}\<close> on the first
  root node whose id is the parent id: the node found by \<^verbatim>\<open>next(...)\<close> is an element
  of \<^verbatim>\<open>root_nodes\<close> and is changed in place.
\<close>

definition with_subworkflow ::
  "workflow_node list \<Rightarrow> workflow_link list \<Rightarrow> workflow_node \<Rightarrow> workflow_node" where
  "with_subworkflow child_nodes subworkflow_links n =
     WorkflowNodeSchema (node_id n) (title n) (node_type n)
       (AList.update ''subworkflow'' (SubworkflowDump child_nodes subworkflow_links) (config n))
       (parent_id n)"






section \<open>Node outputs, exceptions and the external collaborators\<close>

text \<open>
  A node output is opaque to the executor but for two reads: \<^verbatim>\<open>getattr(output,
  source_handle, None)\<close> on the output of a router, whose fields are its routes (each a
  consumable output or \<^verbatim>\<open>None\<close>), and \<^verbatim>\<open>resume_time\<close> and \<^verbatim>\<open>blocked_nodes\<close> of a
  \<^verbatim>\<open>HumanInterventionNodeOutput\<close>.
\<close>

datatype node_output =
    BaseNodeOutput "(string \<times> pyval) list"
  | RouterNodeOutput "(string \<times> node_output option) list"
  | HumanInterventionNodeOutput "string list" "datetime option"

text \<open>
  The exceptions that occur. \<open>PauseException\<close> carries \<^verbatim>\<open>node_id\<close> and \<^verbatim>\<open>output\<close>;
  \<open>NodeError\<close> is any other exception of a node implementation. All of them are
  subclasses of \<^verbatim>\<open>Exception\<close>.
\<close>

datatype exn =
    UpstreamFailure string
  | UnconnectedNode string
  | ValueError string
  | KeyError string
  | ValidationError string
  | AttributeError string
  | StopIteration
  | RuntimeError string
  | PauseException string "node_output option"
  | NodeError string

text \<open>
  The input of a node instance: the outputs of its predecessors by predecessor id, or,
  for the input node, the initial input by field name.
\<close>

datatype input_value = OutputValue node_output | InitialValue pyval

text \<open>
  A node instance, as far as the executor uses it: awaiting the instance on an input
  returns an output or raises, and \<^verbatim>\<open>output_model.model_validate\<close> (absent when the
  instance has no \<^verbatim>\<open>output_model\<close>) returns an output or raises.
  \<^verbatim>\<open>NodeFactory.create_node(node_name, node_type_name, config)\<close> returns an instance
  or raises. Both are parameters of the model: their code is outside the executor.
\<close>

record node_instance =
  call :: "(string \<times> input_value) list \<Rightarrow> exn + node_output"
  output_model :: "((key \<times> pyval) list \<Rightarrow> exn + node_output) option"

type_synonym node_factory =
  "string \<Rightarrow> string \<Rightarrow> (string \<times> config_value) list \<Rightarrow> exn + node_instance"

text \<open>A precomputed output is a dictionary or a list of dictionaries.\<close>

datatype precomputed = PrecomputedDict "(key \<times> pyval) list" | PrecomputedList "(key \<times> pyval) list list"

section \<open>The executor's state\<close>

datatype task_status = PENDING | RUNNING | COMPLETED | FAILED | PAUSED | CANCELED

datatype error_field = NoError | ErrorText string | Traceback exn

text \<open>
  What the executor does to its collaborators is kept as a trace: the creation of an
  asyncio task, the two operations of the task recorder (with the fields \<^verbatim>\<open>status\<close>,
  \<^verbatim>\<open>error\<close> and \<^verbatim>\<open>is_downstream_of_pause\<close> of an update), a call of the node factory
  (from the validation of a precomputed output, from the seeding of the input node in
  \<^verbatim>\<open>run\<close>, or from \<^verbatim>\<open>_execute_node\<close>), and the invocation of a node instance (by
  \<^verbatim>\<open>run\<close> for the input node, or by \<^verbatim>\<open>_execute_node\<close>).
\<close>

datatype factory_use = SchemaOnly | InputSeed | Instance

datatype event =
    AsyncCreateTask string
  | RecorderCreateTask string
  | RecorderUpdateTask string task_status error_field bool
  | FactoryCreateNode string factory_use
  | NodeCall string factory_use "(string \<times> input_value) list"

text \<open>
  An asyncio task is scheduled when created, runs, and is done with a result (a value
  or an exception); awaiting a done task gives its result every time.
\<close>

datatype task = Scheduled | Running | Done "exn + node_output option"

text \<open>
  The fields of \<^verbatim>\<open>WorkflowExecutor\<close>; \<open>task_recorder\<close> says whether a recorder was
  given. \<^verbatim>\<open>node_instances\<close> (written, never read) and \<^verbatim>\<open>context\<close> (read to fill
  the context of a node instance and to mark the run record paused) are left out.
\<close>

record executor =
  workflow :: workflow_definition
  initial_inputs :: "(string \<times> (string \<times> pyval) list) list"
  task_recorder :: bool
  node_dict :: "(string \<times> workflow_node) list"
  dependencies :: "(string \<times> string list) list"
  outputs :: "(string \<times> node_output option) list"
  failed_nodes :: "string set"
  node_tasks :: "(string \<times> task) list"
  events :: "event list"

definition log :: "event \<Rightarrow> executor \<Rightarrow> executor" where
  "log e s = s\<lparr>events := events s @ [e]\<rparr>"

text \<open>\<^verbatim>\<open>if self.task_recorder: self.task_recorder.update_task(...)\<close>.\<close>

definition update_task :: "string \<Rightarrow> task_status \<Rightarrow> error_field \<Rightarrow> bool \<Rightarrow> executor \<Rightarrow> executor" where
  "update_task nid st err dp s =
     (if task_recorder s then log (RecorderUpdateTask nid st err dp) s else s)"

definition set_output :: "string \<Rightarrow> node_output option \<Rightarrow> executor \<Rightarrow> executor" where
  "set_output nid v s = s\<lparr>outputs := AList.update nid v (outputs s)\<rparr>"

definition add_failed :: "string \<Rightarrow> executor \<Rightarrow> executor" where
  "add_failed nid s = s\<lparr>failed_nodes := insert nid (failed_nodes s)\<rparr>"

section \<open>The constructor\<close>

text \<open>
  \<^verbatim>\<open>_build_node_dict\<close> and \<^verbatim>\<open>_build_dependencies\<close>. The second one indexes
  \<^verbatim>\<open>dependencies[link.target_id]\<close> without a guard, so a link whose target is not a
  node raises \<^verbatim>\<open>KeyError\<close>. The source of a link is not looked up.
\<close>

definition build_node_dict :: "workflow_definition \<Rightarrow> (string \<times> workflow_node) list" where
  "build_node_dict w = py_dict (map (\<lambda>n. (node_id n, n)) (nodes w))"

fun add_links :: "workflow_link list \<Rightarrow> (string \<times> string list) list \<Rightarrow> exn + (string \<times> string list) list" where
  "add_links [] deps = Inr deps"
| "add_links (l # ls) deps =
     (case map_of deps (target_id l) of
        None \<Rightarrow> Inl (KeyError (target_id l))
      | Some ds \<Rightarrow> add_links ls (AList.update (target_id l) (set_add (source_id l) ds) deps))"

definition build_dependencies :: "workflow_definition \<Rightarrow> exn + (string \<times> string list) list" where
  "build_dependencies w = add_links (links w) (py_dict (map (\<lambda>n. (node_id n, [])) (nodes w)))"

text \<open>
  \<^verbatim>\<open>__init__\<close> for a \<^verbatim>\<open>WorkflowDefinitionSchema\<close>. The two loops before
  \<^verbatim>\<open>_build_node_dict()\<close> fill the same two dictionaries (skipping a link whose target
  is unknown) and are overwritten by the two calls, so only the calls are modelled.
  The workflow is stored as given: \<^verbatim>\<open>_process_subworkflows\<close> is not called.
\<close>

definition init ::
  "workflow_definition \<Rightarrow> (string \<times> (string \<times> pyval) list) list \<Rightarrow> bool \<Rightarrow> exn + executor" where
  "init w inputs recorder =
     (case build_dependencies w of
        Inl e \<Rightarrow> Inl e
      | Inr deps \<Rightarrow>
          Inr \<lparr> workflow = w, initial_inputs = inputs, task_recorder = recorder,
                node_dict = build_node_dict w, dependencies = deps, outputs = [],
                failed_nodes = {}, node_tasks = [], events = [] \<rparr>)"

section \<open>Source handles\<close>

text \<open>
  \<^verbatim>\<open>_get_source_handles\<close>: for every link, in order, the source node is looked up
  (\<^verbatim>\<open>KeyError\<close> when absent); a link out of a router needs a truthy handle
  (\<^verbatim>\<open>ValueError\<close> otherwise) and is entered under \<^verbatim>\<open>(source_id, target_id)\<close>.
\<close>

definition missing_handle :: "string \<Rightarrow> string \<Rightarrow> exn" where
  "missing_handle src tgt =
     ValueError (''Missing source_handle in link from router node '' @ src @ '' to '' @ tgt)"

fun source_handles_loop ::
  "(string \<times> workflow_node) list \<Rightarrow> workflow_link list \<Rightarrow> ((string \<times> string) \<times> string) list \<Rightarrow>
   exn + ((string \<times> string) \<times> string) list" where
  "source_handles_loop nd [] acc = Inr acc"
| "source_handles_loop nd (l # ls) acc =
     (case map_of nd (source_id l) of
        None \<Rightarrow> Inl (KeyError (source_id l))
      | Some source_node \<Rightarrow>
          if node_type source_node = ''RouterNode'' then
            (case source_handle l of
               None \<Rightarrow> Inl (missing_handle (source_id l) (target_id l))
             | Some h \<Rightarrow>
                 if h = [] then Inl (missing_handle (source_id l) (target_id l))
                 else source_handles_loop nd ls (AList.update (source_id l, target_id l) h acc))
          else source_handles_loop nd ls acc)"

definition get_source_handles :: "executor \<Rightarrow> exn + ((string \<times> string) \<times> string) list" where
  "get_source_handles s = source_handles_loop (node_dict s) (links (workflow s)) []"

section \<open>Executing one node\<close>

definition upstream_failure :: "string \<Rightarrow> exn" where
  "upstream_failure nid = UpstreamFailure (''Node '' @ nid @ '' skipped due to upstream failure'')"

text \<open>\<^verbatim>\<open>self._dependencies.get(node_id, set())\<close> and \<^verbatim>\<open>self._outputs.get(dep_id)\<close>.\<close>

definition dependency_ids :: "executor \<Rightarrow> string \<Rightarrow> string list" where
  "dependency_ids s nid = (case map_of (dependencies s) nid of None \<Rightarrow> [] | Some ds \<Rightarrow> ds)"

definition get_output :: "executor \<Rightarrow> string \<Rightarrow> node_output option" where
  "get_output s d = (case map_of (outputs s) d of None \<Rightarrow> None | Some v \<Rightarrow> v)"

text \<open>
  What \<^verbatim>\<open>await asyncio.gather(...)\<close> over the tasks of the predecessors gives once
  they are done: their values in the order of the predecessors, or an exception
  (\<open>None\<close> here) as soon as one of them raised.
\<close>

fun predecessor_outputs :: "(string \<times> task) list \<Rightarrow> string list \<Rightarrow> node_output option list option" where
  "predecessor_outputs tasks [] = Some []"
| "predecessor_outputs tasks (d # ds) =
     (case map_of tasks d of
        Some (Done (Inr v)) \<Rightarrow> map_option ((#) v) (predecessor_outputs tasks ds)
      | _ \<Rightarrow> None)"

text \<open>
  The pause gate: a predecessor whose stored output is a human-intervention output
  with a falsy \<^verbatim>\<open>resume_time\<close> (a datetime is always truthy) that lists the node
  in \<^verbatim>\<open>blocked_nodes\<close>.
\<close>

definition paused_blocks :: "node_output option \<Rightarrow> string \<Rightarrow> bool" where
  "paused_blocks out nid =
     (case out of
        Some (HumanInterventionNodeOutput blocked resume) \<Rightarrow> resume = None \<and> nid \<in> set blocked
      | _ \<Rightarrow> False)"

definition blocked_by_pause :: "executor \<Rightarrow> string \<Rightarrow> string list \<Rightarrow> bool" where
  "blocked_by_pause s nid deps = list_ex (\<lambda>d. paused_blocks (get_output s d) nid) deps"

text \<open>
  \<^verbatim>\<open>getattr(output, source_handle, None)\<close>: the route of a router output, \<^verbatim>\<open>None\<close>
  when the output is \<^verbatim>\<open>None\<close> or has no such route.
\<close>

fun getattr_output :: "node_output option \<Rightarrow> string \<Rightarrow> node_output option" where
  "getattr_output (Some (RouterNodeOutput routes)) h =
     (case map_of routes h of None \<Rightarrow> None | Some r \<Rightarrow> r)"
| "getattr_output out h = None"

text \<open>
  The loop that builds \<^verbatim>\<open>node_input\<close> from the predecessors and their outputs. It
  ends early, with the node cancelled, at a router whose route for this node is
  \<^verbatim>\<open>None\<close>.
\<close>

datatype assembled = RouteNotTaken | Assembled "(string \<times> node_output option) list"

fun build_node_input ::
  "(string \<times> workflow_node) list \<Rightarrow> ((string \<times> string) \<times> string) list \<Rightarrow> string \<Rightarrow>
   (string \<times> node_output option) list \<Rightarrow> (string \<times> node_output option) list \<Rightarrow> exn + assembled" where
  "build_node_input nd handles nid [] acc = Inr (Assembled acc)"
| "build_node_input nd handles nid ((d, out) # rest) acc =
     (case map_of nd d of
        None \<Rightarrow> Inl (KeyError d)
      | Some predecessor_node \<Rightarrow>
          if node_type predecessor_node = ''RouterNode'' then
            (case map_of handles (d, nid) of
               None \<Rightarrow> Inl (missing_handle d nid)
             | Some h \<Rightarrow>
                 if h = [] then Inl (missing_handle d nid)
                 else
                   (case getattr_output out h of
                      Some route_output \<Rightarrow>
                        build_node_input nd handles nid rest (AList.update d (Some route_output) acc)
                    | None \<Rightarrow> Inr RouteNotTaken))
          else build_node_input nd handles nid rest (AList.update d out acc))"

text \<open>
  The input node takes \<^verbatim>\<open>self._initial_inputs.get(node_id, {})\<close> instead; then the
  entries whose value is \<^verbatim>\<open>None\<close> are removed.
\<close>

definition final_input ::
  "executor \<Rightarrow> workflow_node \<Rightarrow> string \<Rightarrow> (string \<times> node_output option) list \<Rightarrow>
   (string \<times> input_value) list" where
  "final_input s node nid acc =
     (if node_type node = ''InputNode'' then
        map (\<lambda>kv. (fst kv, InitialValue (snd kv)))
          (filter (\<lambda>kv. snd kv \<noteq> PNone)
             (case map_of (initial_inputs s) nid of None \<Rightarrow> [] | Some inp \<Rightarrow> inp))
      else List.map_filter (\<lambda>kv. map_option (\<lambda>v. (fst kv, OutputValue v)) (snd kv)) acc)"

text \<open>
  The instance is created and awaited. A \<^verbatim>\<open>PauseException\<close> of the invocation is
  caught by the inner handler: its output is stored and returned.
\<close>

definition invoke_node ::
  "node_factory \<Rightarrow> workflow_node \<Rightarrow> string \<Rightarrow> (string \<times> input_value) list \<Rightarrow> executor \<Rightarrow>
   (exn + node_output option) \<times> executor" where
  "invoke_node fac node nid node_input s =
     (let s1 = log (FactoryCreateNode nid Instance) s in
      case fac (title node) (node_type node) (config node) of
        Inl e \<Rightarrow> (Inl e, s1)
      | Inr node_instance \<Rightarrow>
          (let s2 = log (NodeCall nid Instance node_input) (update_task nid RUNNING NoError False s1) in
           case call node_instance node_input of
             Inr out \<Rightarrow>
               (Inr (Some out), set_output nid (Some out) (update_task nid COMPLETED NoError False s2))
           | Inl (PauseException pn pout) \<Rightarrow>
               (Inr pout, update_task nid PAUSED NoError False (set_output nid pout s2))
           | Inl e \<Rightarrow> (Inl e, s2)))"

text \<open>
  The body of the \<^verbatim>\<open>try\<close> of \<^verbatim>\<open>_execute_node\<close> from the point where the
  predecessors' tasks are done: the result of the gather, the pause gate, the failure
  gate, the null gate, the input assembly, the empty-input check, the invocation.
\<close>

definition execute_node_try ::
  "node_factory \<Rightarrow> workflow_node \<Rightarrow> string \<Rightarrow> executor \<Rightarrow> (exn + node_output option) \<times> executor" where
  "execute_node_try fac node nid s =
     (let deps = dependency_ids s nid in
      case predecessor_outputs (node_tasks s) deps of
        None \<Rightarrow> (Inl (upstream_failure nid), s)
      | Some pouts \<Rightarrow>
          if blocked_by_pause s nid deps then (Inr None, update_task nid PENDING NoError True s)
          else if list_ex (\<lambda>d. d \<in> failed_nodes s) deps then
            (Inl (upstream_failure nid), add_failed nid s)
          else if node_type node \<noteq> ''CoalesceNode'' \<and> list_ex (\<lambda>out. out = None) pouts then
            (Inr None, update_task nid CANCELED NoError False (set_output nid None s))
          else
            (case get_source_handles s of
               Inl e \<Rightarrow> (Inl e, s)
             | Inr handles \<Rightarrow>
                 (case build_node_input (node_dict s) handles nid (zip deps pouts) [] of
                    Inl e \<Rightarrow> (Inl e, s)
                  | Inr RouteNotTaken \<Rightarrow>
                      (Inr None, update_task nid CANCELED NoError False (set_output nid None s))
                  | Inr (Assembled acc) \<Rightarrow>
                      (let node_input = final_input s node nid acc;
                           s1 = update_task nid RUNNING NoError False s
                       in if node_input = [] then
                            (Inl (UnconnectedNode (''Node '' @ nid @ '' has no input'')),
                             set_output nid None s1)
                          else invoke_node fac node nid node_input s1))))"

text \<open>The two outer handlers: \<^verbatim>\<open>except UpstreamFailure\<close>, then \<^verbatim>\<open>except Exception\<close>.\<close>

definition execute_node_except ::
  "string \<Rightarrow> (exn + node_output option) \<times> executor \<Rightarrow> (exn + node_output option) \<times> executor" where
  "execute_node_except nid rs =
     (case fst rs of
        Inl (UpstreamFailure m) \<Rightarrow>
          (fst rs, update_task nid CANCELED (ErrorText ''Upstream failure'') False
                     (set_output nid None (add_failed nid (snd rs))))
      | Inl e \<Rightarrow> (fst rs, update_task nid FAILED (Traceback e) False (add_failed nid (snd rs)))
      | Inr v \<Rightarrow> rs)"

section \<open>Tasks\<close>

text \<open>
  \<^verbatim>\<open>_get_async_task_for_node_execution\<close>: the handle of a node is looked up, and
  created (and recorded) only when the node has none.
\<close>

definition get_async_task_for_node_execution :: "string \<Rightarrow> executor \<Rightarrow> executor" where
  "get_async_task_for_node_execution nid s =
     (if nid \<in> fst ` set (node_tasks s) then s
      else (let s1 = log (AsyncCreateTask nid) (s\<lparr>node_tasks := AList.update nid Scheduled (node_tasks s)\<rparr>)
            in if task_recorder s1 then log (RecorderCreateTask nid) s1 else s1))"

definition set_task :: "string \<Rightarrow> task \<Rightarrow> executor \<Rightarrow> executor" where
  "set_task nid t s = s\<lparr>node_tasks := AList.update nid t (node_tasks s)\<rparr>"

text \<open>The arguments of \<^verbatim>\<open>gather\<close>: the handles of all predecessors, created in order.\<close>

definition create_tasks :: "string list \<Rightarrow> executor \<Rightarrow> executor" where
  "create_tasks ds s = foldl (\<lambda>t d. get_async_task_for_node_execution d t) s ds"

text \<open>
  The body of \<^verbatim>\<open>_execute_node\<close> once the predecessors are done, with its handlers;
  the task is then done with the result.
\<close>

definition complete_task :: "node_factory \<Rightarrow> workflow_node \<Rightarrow> string \<Rightarrow> executor \<Rightarrow> executor" where
  "complete_task fac node nid s =
     (let rs = execute_node_except nid (execute_node_try fac node nid s)
      in set_task nid (Done (fst rs)) (snd rs))"

text \<open>
  Awaiting the handle of a node. The tasks of one run take turns on one event loop and
  each writes only the entries of its own node, so the model runs a task to its end
  when it is first awaited: it starts (\<^verbatim>\<open>node = self._node_dict[node_id]\<close>, outside
  the \<^verbatim>\<open>try\<close>; then the memo check), creates the handles of all its predecessors
  (the arguments of \<^verbatim>\<open>gather\<close>), awaits them in order and runs the rest of its body.
  Awaiting a task that is itself running (a cycle of dependencies) never returns. The
  first argument bounds the depth of the nesting; \<open>None\<close> is a run that does not end.
\<close>

fun await_task :: "nat \<Rightarrow> node_factory \<Rightarrow> string \<Rightarrow> executor \<Rightarrow> executor option"
and await_all :: "nat \<Rightarrow> node_factory \<Rightarrow> string list \<Rightarrow> executor \<Rightarrow> executor option" where
  "await_task 0 fac nid s0 = None"
| "await_task (Suc k) fac nid s0 =
     (let s = get_async_task_for_node_execution nid s0 in
      case map_of (node_tasks s) nid of
        Some (Done r) \<Rightarrow> Some s
      | Some Running \<Rightarrow> None
      | _ \<Rightarrow>
          (let s1 = set_task nid Running s in
           case map_of (node_dict s1) nid of
             None \<Rightarrow> Some (set_task nid (Done (Inl (KeyError nid))) s1)
           | Some node \<Rightarrow>
               (case map_of (outputs s1) nid of
                  Some v \<Rightarrow> Some (set_task nid (Done (Inr v)) s1)
                | None \<Rightarrow>
                    (case await_all k fac (dependency_ids s1 nid)
                            (create_tasks (dependency_ids s1 nid) s1) of
                       None \<Rightarrow> None
                     | Some s2 \<Rightarrow> Some (complete_task fac node nid s2)))))"
| "await_all k fac [] s = Some s"
| "await_all k fac (d # ds) s =
     (case await_task k fac d s of None \<Rightarrow> None | Some s' \<Rightarrow> await_all k fac ds s')"

section \<open>The driver\<close>

text \<open>
  The loop over \<^verbatim>\<open>precomputed_outputs\<close>. The factory is called for the schema of
  the node; \<^verbatim>\<open>ValidationError\<close>, \<^verbatim>\<open>AttributeError\<close> and \<^verbatim>\<open>KeyError\<close> are
  caught (the entry is skipped with a warning), any other exception leaves \<^verbatim>\<open>run\<close>.
\<close>

fun skipped_with_warning :: "exn \<Rightarrow> bool" where
  "skipped_with_warning (ValidationError m) = True"
| "skipped_with_warning (AttributeError m) = True"
| "skipped_with_warning (KeyError m) = True"
| "skipped_with_warning e = False"

definition precomputed_entry ::
  "node_factory \<Rightarrow> string \<Rightarrow> precomputed \<Rightarrow> executor \<Rightarrow> exn option \<times> executor" where
  "precomputed_entry fac nid pre s =
     (case pre of
        PrecomputedList ds \<Rightarrow> (None, s)
      | PrecomputedDict d \<Rightarrow>
          (case map_of (node_dict s) nid of
             None \<Rightarrow> (None, s)
           | Some node \<Rightarrow>
               (let s1 = log (FactoryCreateNode nid SchemaOnly) s in
                case fac (title node) (node_type node) (config node) of
                  Inl e \<Rightarrow> (if skipped_with_warning e then None else Some e, s1)
                | Inr node_instance \<Rightarrow>
                    (case output_model node_instance of
                       None \<Rightarrow> (None, s1)
                     | Some model_validate \<Rightarrow>
                         (case model_validate d of
                            Inl e \<Rightarrow> (if skipped_with_warning e then None else Some e, s1)
                          | Inr v \<Rightarrow> (None, set_output nid (Some v) s1))))))"

fun precomputed_loop ::
  "node_factory \<Rightarrow> (string \<times> precomputed) list \<Rightarrow> executor \<Rightarrow> exn option \<times> executor" where
  "precomputed_loop fac [] s = (None, s)"
| "precomputed_loop fac ((nid, pre) # rest) s =
     (case precomputed_entry fac nid pre s of
        (Some e, s') \<Rightarrow> (Some e, s')
      | (None, s') \<Rightarrow> precomputed_loop fac rest s')"

text \<open>
  The downstream test of the sweep: the \<^verbatim>\<open>while\<close> loop from \<^verbatim>\<open>current_node\<close>,
  which looks for the paused node among the dependencies of the current node and
  moves on to \<^verbatim>\<open>next(iter(deps))\<close>, the first dependency. On a cycle it does not
  end, so it takes a bound on its steps.
\<close>

fun is_downstream :: "nat \<Rightarrow> (string \<times> string list) list \<Rightarrow> string \<Rightarrow> string \<Rightarrow> bool option" where
  "is_downstream 0 deps paused_node_id current_node = None"
| "is_downstream (Suc k) deps paused_node_id current_node =
     (case map_of deps current_node of
        None \<Rightarrow> Some False
      | Some ds \<Rightarrow>
          if paused_node_id \<in> set ds then Some True
          else (case ds of [] \<Rightarrow> Some False | d # rest \<Rightarrow> is_downstream k deps paused_node_id d))"

text \<open>
  The loop over \<^verbatim>\<open>zip(self._node_tasks.keys(), results)\<close>, with the variable
  \<^verbatim>\<open>paused_node_id\<close> threaded through.
\<close>

fun sweep ::
  "nat \<Rightarrow> (string \<times> (exn + node_output option)) list \<Rightarrow> string option \<Rightarrow> executor \<Rightarrow>
   (string option \<times> executor) option" where
  "sweep k [] paused s = Some (paused, s)"
| "sweep k ((nid, Inr v) # rest) paused s = sweep k rest paused s"
| "sweep k ((nid, Inl (PauseException pn pout)) # rest) paused s = sweep k rest (Some pn) s"
| "sweep k ((nid, Inl e) # rest) paused s =
     (if truthy paused \<and> task_recorder s then
        (case is_downstream k (dependencies s) (the paused) nid of
           None \<Rightarrow> None
         | Some True \<Rightarrow> sweep k rest paused (update_task nid PENDING NoError True s)
         | Some False \<Rightarrow> sweep k rest paused (set_output nid None (add_failed nid s)))
      else sweep k rest paused (set_output nid None (add_failed nid s)))"

text \<open>The result of a done task; every awaited task is done.\<close>

definition task_result :: "executor \<Rightarrow> string \<Rightarrow> exn + node_output option" where
  "task_result s nid =
     (case map_of (node_tasks s) nid of
        Some (Done r) \<Rightarrow> r
      | _ \<Rightarrow> Inl (RuntimeError ''task is not done''))"

text \<open>
  The re-raise after the sweep: the first result that is a \<^verbatim>\<open>PauseException\<close> of
  the paused node.
\<close>

fun raised_pause :: "string \<Rightarrow> (exn + node_output option) list \<Rightarrow> exn option" where
  "raised_pause p [] = None"
| "raised_pause p (Inl (PauseException pn pout) # rest) =
     (if pn = p then Some (PauseException pn pout) else raised_pause p rest)"
| "raised_pause p (r # rest) = raised_pause p rest"

text \<open>The returned dictionary: the outputs that are not \<^verbatim>\<open>None\<close>.\<close>

definition non_null_outputs :: "executor \<Rightarrow> (string \<times> node_output) list" where
  "non_null_outputs s = List.map_filter (\<lambda>kv. map_option (\<lambda>v. (fst kv, v)) (snd kv)) (outputs s)"

text \<open>
  \<^verbatim>\<open>nodes_to_run\<close>: the keys of the node dictionary, or \<^verbatim>\<open>node_ids\<close> when that
  list is not empty, without the nodes whose \<^verbatim>\<open>parent_id\<close> is truthy.
\<close>

definition nodes_to_run :: "executor \<Rightarrow> string list \<Rightarrow> string list" where
  "nodes_to_run s node_ids =
     filter (\<lambda>n. \<not> list_ex (\<lambda>node. truthy (parent_id node) \<and> node_id node = n) (nodes (workflow s)))
       (remdups (if node_ids = [] then map fst (node_dict s) else node_ids))"

text \<open>
  The part of \<^verbatim>\<open>run\<close> after the input node is seeded: outputs of the nodes to run
  are dropped, their handles are created, all handles that exist are awaited, the
  results are swept, and the pause is re-raised or the outputs are returned.
\<close>

definition run_tasks ::
  "nat \<Rightarrow> node_factory \<Rightarrow> string list \<Rightarrow> executor \<Rightarrow>
   ((exn + (string \<times> node_output) list) \<times> executor) option" where
  "run_tasks k fac node_ids s =
     (let to_run = nodes_to_run s node_ids;
          s1 = s\<lparr>outputs := foldl (\<lambda>out n. AList.delete n out) (outputs s) to_run\<rparr>;
          s2 = create_tasks to_run s1;
          awaited = map fst (node_tasks s2)
      in case await_all k fac awaited s2 of
           None \<Rightarrow> None
         | Some s3 \<Rightarrow>
             (let results = map (task_result s3) awaited in
              case sweep k (zip awaited results) None s3 of
                None \<Rightarrow> None
              | Some (paused_node_id, s4) \<Rightarrow>
                  (case (if truthy paused_node_id then raised_pause (the paused_node_id) results else None) of
                     Some e \<Rightarrow> Some (Inl e, s4)
                   | None \<Rightarrow> Some (Inr (non_null_outputs s4), s4))))"

text \<open>
  The body of \<^verbatim>\<open>run\<close>: the precomputed outputs, the unguarded \<^verbatim>\<open>next(...)\<close> over
  the nodes that are input nodes with a falsy \<^verbatim>\<open>parent_id\<close>, the seeding of the
  input node (the factory is called and the instance awaited on the input, outside any
  handler), then the tasks.
\<close>

definition is_top_level_input :: "workflow_node \<Rightarrow> bool" where
  "is_top_level_input n = (node_type n = ''InputNode'' \<and> \<not> truthy (parent_id n))"

definition run_body ::
  "nat \<Rightarrow> node_factory \<Rightarrow> (string \<times> pyval) list \<Rightarrow> string list \<Rightarrow> (string \<times> precomputed) list \<Rightarrow>
   executor \<Rightarrow> ((exn + (string \<times> node_output) list) \<times> executor) option" where
  "run_body k fac input node_ids precomputed_outputs s =
     (case precomputed_loop fac precomputed_outputs s of
        (Some e, s1) \<Rightarrow> Some (Inl e, s1)
      | (None, s1) \<Rightarrow>
          (case find is_top_level_input (nodes (workflow s1)) of
             None \<Rightarrow> Some (Inl StopIteration, s1)
           | Some input_node \<Rightarrow>
               (let s2 = log (FactoryCreateNode (node_id input_node) InputSeed)
                           (s1\<lparr>initial_inputs := AList.update (node_id input_node) input (initial_inputs s1)\<rparr>)
                in case fac (title input_node) (node_type input_node) (config input_node) of
                     Inl e \<Rightarrow> Some (Inl e, s2)
                   | Inr input_node_obj \<Rightarrow>
                       (let node_input = map (\<lambda>kv. (fst kv, InitialValue (snd kv))) input;
                            s3 = log (NodeCall (node_id input_node) InputSeed node_input) s2
                        in case call input_node_obj node_input of
                             Inl e \<Rightarrow> Some (Inl e, s3)
                           | Inr out \<Rightarrow>
                               run_tasks k fac node_ids (set_output (node_id input_node) (Some out) s3)))))"

text \<open>
  \<^verbatim>\<open>run\<close> is a coroutine: a \<^verbatim>\<open>StopIteration\<close> that leaves its body reaches the
  awaiting caller as \<^verbatim>\<open>RuntimeError("coroutine raised StopIteration")\<close> (PEP 479).
\<close>

definition coroutine :: "exn + 'a \<Rightarrow> exn + 'a" where
  "coroutine r =
     (case r of
        Inl StopIteration \<Rightarrow> Inl (RuntimeError ''coroutine raised StopIteration'')
      | _ \<Rightarrow> r)"

definition run ::
  "nat \<Rightarrow> node_factory \<Rightarrow> (string \<times> pyval) list \<Rightarrow> string list \<Rightarrow> (string \<times> precomputed) list \<Rightarrow>
   executor \<Rightarrow> ((exn + (string \<times> node_output) list) \<times> executor) option" where
  "run k fac input node_ids precomputed_outputs s =
     map_option (\<lambda>rs. (coroutine (fst rs), snd rs))
       (run_body k fac input node_ids precomputed_outputs s)"

section \<open>Example workflows\<close>

text \<open>A datetime inside a set, as a field of a dumped output.\<close>

definition seen_at :: "(key \<times> pyval) list" where
  "seen_at = [(KStr ''seen'', PSet [PDatetime (Datetime ''2024-01-01T00:00:00'')])]"

section \<open>Properties of the serializer\<close>

lemma serialize_value_list: "serialize_value (PList xs) = PList (map serialize_value xs)"
  by simp

lemma serialize_value_datetime: "serialize_value (PDatetime d) = PStr (isoformat d)"
  by simp

text \<open>
  C9. The serializer converts a datetime to its ISO text at the top of a value, in a
  list and in a dict, but the branch for a set returns \<^verbatim>\<open>list(val)\<close> without
  serializing the elements: a datetime inside a set stays a datetime. The claim that a
  datetime nested in a set is converted fails on the output \<open>seen_at\<close>, where the list
  branch on the same elements converts it.
\<close>

theorem serialize_output_set_keeps_datetime:
  "serialize_output (Some seen_at) =
     Some [(KStr ''seen'', PList [PDatetime (Datetime ''2024-01-01T00:00:00'')])]
   \<and> serialize_value (PList [PDatetime (Datetime ''2024-01-01T00:00:00'')]) =
     PList [PStr ''2024-01-01T00:00:00'']"
  by (simp add: serialize_output_def seen_at_def py_dict_def)


section \<open>Frame lemmas\<close>

lemma log_fields [simp]:
  "workflow (log e s) = workflow s"
  "initial_inputs (log e s) = initial_inputs s"
  "task_recorder (log e s) = task_recorder s"
  "node_dict (log e s) = node_dict s"
  "dependencies (log e s) = dependencies s"
  "outputs (log e s) = outputs s"
  "failed_nodes (log e s) = failed_nodes s"
  "node_tasks (log e s) = node_tasks s"
  "events (log e s) = events s @ [e]"
  by (simp_all add: log_def)

lemma update_task_fields [simp]:
  "workflow (update_task n st er dp s) = workflow s"
  "initial_inputs (update_task n st er dp s) = initial_inputs s"
  "task_recorder (update_task n st er dp s) = task_recorder s"
  "node_dict (update_task n st er dp s) = node_dict s"
  "dependencies (update_task n st er dp s) = dependencies s"
  "outputs (update_task n st er dp s) = outputs s"
  "failed_nodes (update_task n st er dp s) = failed_nodes s"
  "node_tasks (update_task n st er dp s) = node_tasks s"
  "events (update_task n st er dp s) =
     events s @ (if task_recorder s then [RecorderUpdateTask n st er dp] else [])"
  by (simp_all add: update_task_def)

lemma set_output_fields [simp]:
  "workflow (set_output n v s) = workflow s"
  "initial_inputs (set_output n v s) = initial_inputs s"
  "task_recorder (set_output n v s) = task_recorder s"
  "node_dict (set_output n v s) = node_dict s"
  "dependencies (set_output n v s) = dependencies s"
  "outputs (set_output n v s) = AList.update n v (outputs s)"
  "failed_nodes (set_output n v s) = failed_nodes s"
  "node_tasks (set_output n v s) = node_tasks s"
  "events (set_output n v s) = events s"
  by (simp_all add: set_output_def)

lemma add_failed_fields [simp]:
  "workflow (add_failed n s) = workflow s"
  "initial_inputs (add_failed n s) = initial_inputs s"
  "task_recorder (add_failed n s) = task_recorder s"
  "node_dict (add_failed n s) = node_dict s"
  "dependencies (add_failed n s) = dependencies s"
  "outputs (add_failed n s) = outputs s"
  "failed_nodes (add_failed n s) = insert n (failed_nodes s)"
  "node_tasks (add_failed n s) = node_tasks s"
  "events (add_failed n s) = events s"
  by (simp_all add: add_failed_def)

lemma set_task_fields [simp]:
  "workflow (set_task n t s) = workflow s"
  "initial_inputs (set_task n t s) = initial_inputs s"
  "task_recorder (set_task n t s) = task_recorder s"
  "node_dict (set_task n t s) = node_dict s"
  "dependencies (set_task n t s) = dependencies s"
  "outputs (set_task n t s) = outputs s"
  "failed_nodes (set_task n t s) = failed_nodes s"
  "node_tasks (set_task n t s) = AList.update n t (node_tasks s)"
  "events (set_task n t s) = events s"
  by (simp_all add: set_task_def)

lemma get_async_task_fields [simp]:
  "workflow (get_async_task_for_node_execution n s) = workflow s"
  "initial_inputs (get_async_task_for_node_execution n s) = initial_inputs s"
  "task_recorder (get_async_task_for_node_execution n s) = task_recorder s"
  "node_dict (get_async_task_for_node_execution n s) = node_dict s"
  "dependencies (get_async_task_for_node_execution n s) = dependencies s"
  "outputs (get_async_task_for_node_execution n s) = outputs s"
  "failed_nodes (get_async_task_for_node_execution n s) = failed_nodes s"
  by (simp_all add: get_async_task_for_node_execution_def Let_def)

lemma get_async_task_tasks:
  "node_tasks (get_async_task_for_node_execution n s) =
     (if n \<in> fst ` set (node_tasks s) then node_tasks s else AList.update n Scheduled (node_tasks s))"
  by (simp add: get_async_task_for_node_execution_def Let_def)

lemma get_async_task_events:
  "events (get_async_task_for_node_execution n s) =
     events s @ (if n \<in> fst ` set (node_tasks s) then []
                 else AsyncCreateTask n # (if task_recorder s then [RecorderCreateTask n] else []))"
  by (simp add: get_async_task_for_node_execution_def Let_def)

lemma map_of_eq_None_keys: "map_of al k = None \<longleftrightarrow> k \<notin> fst ` set al"
  by (simp add: map_of_eq_None_iff)

lemma get_async_task_lookup:
  "map_of (node_tasks (get_async_task_for_node_execution n s)) m =
     (if m = n \<and> map_of (node_tasks s) n = None then Some Scheduled else map_of (node_tasks s) m)"
  by (auto simp: get_async_task_tasks AList.update_conv' map_of_eq_None_keys)

text \<open>
  A relation between executor states that is reflexive and transitive and holds across
  the creation of a handle, across a task that ends at once, and across the body of a
  task once it holds across the awaits of its predecessors, holds across every await.
\<close>

lemma create_tasks_rel:
  assumes rfl: "\<And>s. P s s"
    and trans: "\<And>s t u. P s t \<Longrightarrow> P t u \<Longrightarrow> P s u"
    and create: "\<And>n s. P s (get_async_task_for_node_execution n s)"
  shows "P s (create_tasks ds s)"
  unfolding create_tasks_def
proof (induction ds arbitrary: s)
  case Nil
  show ?case by (simp add: rfl)
next
  case (Cons d ds)
  show ?case using trans [OF create [of s d] Cons [of "get_async_task_for_node_execution d s"]] by simp
qed

lemma await_rel_aux:
  assumes rfl: "\<And>s. P s s"
    and trans: "\<And>s t u. P s t \<Longrightarrow> P t u \<Longrightarrow> P s u"
    and create: "\<And>n s. P s (get_async_task_for_node_execution n s)"
    and keyerr: "\<And>n s. map_of (node_tasks s) n = Some Scheduled \<Longrightarrow> map_of (node_dict s) n = None \<Longrightarrow>
        P s (set_task n (Done (Inl (KeyError n))) (set_task n Running s))"
    and memo: "\<And>n s v. map_of (node_tasks s) n = Some Scheduled \<Longrightarrow> map_of (outputs s) n = Some v \<Longrightarrow>
        P s (set_task n (Done (Inr v)) (set_task n Running s))"
    and body: "\<And>n s node s2. map_of (node_tasks s) n = Some Scheduled \<Longrightarrow>
        map_of (node_dict s) n = Some node \<Longrightarrow> map_of (outputs s) n = None \<Longrightarrow>
        P (create_tasks (dependency_ids s n) (set_task n Running s)) s2 \<Longrightarrow>
        P s (complete_task fac node n s2)"
  shows "await_task k f n s = Some s' \<Longrightarrow> f = fac \<Longrightarrow> P s s'"
    and "await_all k f ns s = Some s' \<Longrightarrow> f = fac \<Longrightarrow> P s s'"
proof (induction k f n s and k f ns s arbitrary: s' and s' rule: await_task_await_all.induct)
  case (1 f nid s0)
  then show ?case by simp
next
  case (2 k f nid s0)
  note f = \<open>f = fac\<close>
  let ?s = "get_async_task_for_node_execution nid s0"
  have c: "P s0 ?s" by (rule create)
  have nn: "map_of (node_tasks ?s) nid \<noteq> None"
    by (simp add: get_async_task_lookup)
  show ?case
  proof (cases "map_of (node_tasks ?s) nid")
    case None
    with nn show ?thesis by simp
  next
    case (Some t)
    show ?thesis
    proof (cases t)
      case Scheduled
      note sch = Some [unfolded Scheduled]
      let ?s1 = "set_task nid Running ?s"
      show ?thesis
      proof (cases "map_of (node_dict ?s) nid")
        case None
        with "2.prems" sch have "s' = set_task nid (Done (Inl (KeyError nid))) ?s1"
          by (simp add: Let_def)
        with keyerr [OF sch None] c show ?thesis using trans by blast
      next
        case (Some node)
        note nd = this
        show ?thesis
        proof (cases "map_of (outputs ?s) nid")
          case (Some v)
          with "2.prems" sch nd have "s' = set_task nid (Done (Inr v)) ?s1"
            by (simp add: Let_def)
          with memo [OF sch Some] c show ?thesis using trans by blast
        next
          case None
          let ?ds = "dependency_ids ?s1 nid"
          from "2.prems" sch nd None obtain s2 where
            aw: "await_all k f ?ds (create_tasks ?ds ?s1) = Some s2"
            and s': "s' = complete_task f node nid s2"
            by (auto simp: Let_def split: option.splits)
          have "P (create_tasks ?ds ?s1) s2"
            by (rule "2.IH"(2) [OF HOL.refl sch HOL.refl HOL.refl _ _ aw f]) (use nd None in \<open>simp_all\<close>)
          moreover have "?ds = dependency_ids ?s nid" by (simp add: dependency_ids_def)
          ultimately have ih: "P (create_tasks (dependency_ids ?s nid) ?s1) s2" by simp
          have "P ?s (complete_task fac node nid s2)" by (rule body [OF sch nd None ih])
          then have "P ?s s'" unfolding s' f .
          with c show ?thesis using trans by blast
        qed
      qed
    next
      case Running
      with "2.prems" Some show ?thesis by (simp add: Let_def)
    next
      case (Done r)
      with "2.prems" Some have "s' = ?s" by (simp add: Let_def)
      with c show ?thesis by simp
    qed
  qed
next
  case (3 k f s)
  then show ?case by (simp add: rfl)
next
  case (4 k f d ds s)
  from "4.prems" obtain s1 where a: "await_task k f d s = Some s1" and b: "await_all k f ds s1 = Some s'"
    by (auto split: option.splits)
  from "4.IH"(1) [OF a] "4.IH"(2) [OF a b] "4.prems" show ?case using trans by blast
qed

lemmas await_task_rel = await_rel_aux(1) [OF _ _ _ _ _ _ _ HOL.refl]
lemmas await_all_rel = await_rel_aux(2) [OF _ _ _ _ _ _ _ HOL.refl]

definition about :: "string \<Rightarrow> event \<Rightarrow> bool" where
  "about n e =
     (case e of
        RecorderUpdateTask m st er dp \<Rightarrow> m = n
      | FactoryCreateNode m u \<Rightarrow> m = n \<and> u = Instance
      | NodeCall m u inp \<Rightarrow> m = n \<and> u = Instance
      | _ \<Rightarrow> False)"

lemma about_simps [simp]:
  "about n (RecorderUpdateTask m st er dp) = (m = n)"
  "about n (FactoryCreateNode m u) = (m = n \<and> u = Instance)"
  "about n (NodeCall m u inp) = (m = n \<and> u = Instance)"
  "about n (AsyncCreateTask m) = False"
  "about n (RecorderCreateTask m) = False"
  by (simp_all add: about_def)

definition is_call :: "string \<Rightarrow> event \<Rightarrow> bool" where
  "is_call n e = (case e of NodeCall m u inp \<Rightarrow> m = n \<and> u = Instance | _ \<Rightarrow> False)"

lemma is_call_simps [simp]:
  "is_call n (RecorderUpdateTask m st er dp) = False"
  "is_call n (FactoryCreateNode m u) = False"
  "is_call n (NodeCall m u inp) = (m = n \<and> u = Instance)"
  "is_call n (AsyncCreateTask m) = False"
  "is_call n (RecorderCreateTask m) = False"
  by (simp_all add: is_call_def)

text \<open>The events the body of the task of a node may append.\<close>

definition node_events :: "string \<Rightarrow> event list \<Rightarrow> bool" where
  "node_events n es \<longleftrightarrow>
     (\<forall>e \<in> set es. about n e) \<and>
     length (filter (\<lambda>e. e = FactoryCreateNode n Instance) es) \<le> 1 \<and>
     length (filter (is_call n) es) \<le> 1"

lemma invoke_node_static [simp]:
  "workflow (snd (invoke_node fac node n inp s)) = workflow s"
  "initial_inputs (snd (invoke_node fac node n inp s)) = initial_inputs s"
  "task_recorder (snd (invoke_node fac node n inp s)) = task_recorder s"
  "node_dict (snd (invoke_node fac node n inp s)) = node_dict s"
  "dependencies (snd (invoke_node fac node n inp s)) = dependencies s"
  "failed_nodes (snd (invoke_node fac node n inp s)) = failed_nodes s"
  "node_tasks (snd (invoke_node fac node n inp s)) = node_tasks s"
  by (simp_all add: invoke_node_def Let_def split: sum.splits exn.splits)

lemma invoke_node_outputs:
  "m \<noteq> n \<Longrightarrow> map_of (outputs (snd (invoke_node fac node n inp s))) m = map_of (outputs s) m"
  by (simp add: invoke_node_def Let_def AList.update_conv' split: sum.splits exn.splits)

lemma invoke_node_events:
  "\<exists>es. events (snd (invoke_node fac node n inp s)) = events s @ es \<and> node_events n es"
  by (auto simp: invoke_node_def Let_def node_events_def split: sum.splits exn.splits)

lemma execute_node_try_static [simp]:
  "workflow (snd (execute_node_try fac node n s)) = workflow s"
  "initial_inputs (snd (execute_node_try fac node n s)) = initial_inputs s"
  "task_recorder (snd (execute_node_try fac node n s)) = task_recorder s"
  "node_dict (snd (execute_node_try fac node n s)) = node_dict s"
  "dependencies (snd (execute_node_try fac node n s)) = dependencies s"
  "node_tasks (snd (execute_node_try fac node n s)) = node_tasks s"
  by (simp_all add: execute_node_try_def Let_def split: sum.splits option.splits assembled.splits)

lemma execute_node_try_failed:
  "failed_nodes (snd (execute_node_try fac node n s)) \<subseteq> insert n (failed_nodes s)"
  "failed_nodes s \<subseteq> failed_nodes (snd (execute_node_try fac node n s))"
  by (auto simp: execute_node_try_def Let_def split: sum.splits option.splits assembled.splits)

lemma execute_node_try_outputs:
  "m \<noteq> n \<Longrightarrow> map_of (outputs (snd (execute_node_try fac node n s))) m = map_of (outputs s) m"
  by (simp add: execute_node_try_def Let_def AList.update_conv' invoke_node_outputs
      split: sum.splits option.splits assembled.splits)

lemma node_events_Nil [simp]: "node_events n []"
  by (simp add: node_events_def)

lemma node_events_update [simp]: "node_events n [RecorderUpdateTask n st er dp]"
  by (simp add: node_events_def)

lemma node_events_Cons_update:
  "node_events n es \<Longrightarrow> node_events n (RecorderUpdateTask n st er dp # es)"
  by (simp add: node_events_def)

lemma node_events_snoc_update:
  "node_events n es \<Longrightarrow> node_events n (es @ [RecorderUpdateTask n st er dp])"
  by (simp add: node_events_def)

lemma execute_node_try_events:
  "\<exists>es. events (snd (execute_node_try fac node n s)) = events s @ es \<and> node_events n es"
proof -
  have inv: "\<exists>es. events (snd (invoke_node fac node n inp (update_task n RUNNING NoError False s))) = events s @ es \<and> node_events n es" for inp
  proof -
    obtain es where "events (snd (invoke_node fac node n inp (update_task n RUNNING NoError False s))) =
       events (update_task n RUNNING NoError False s) @ es" and "node_events n es"
      using invoke_node_events by blast
    then show ?thesis
      by (cases "task_recorder s") (auto intro: node_events_Cons_update)
  qed
  show ?thesis
    using inv
    by (simp add: execute_node_try_def Let_def split: sum.splits option.splits assembled.splits)
qed

lemma execute_node_except_fst [simp]: "fst (execute_node_except n rs) = fst rs"
  by (simp add: execute_node_except_def split: sum.splits exn.splits)

lemma complete_task_static [simp]:
  "workflow (complete_task fac node n s) = workflow s"
  "initial_inputs (complete_task fac node n s) = initial_inputs s"
  "task_recorder (complete_task fac node n s) = task_recorder s"
  "node_dict (complete_task fac node n s) = node_dict s"
  "dependencies (complete_task fac node n s) = dependencies s"
  by (simp_all add: complete_task_def Let_def execute_node_except_def split: sum.splits exn.splits)

lemma complete_task_tasks:
  "node_tasks (complete_task fac node n s) =
     AList.update n (Done (fst (execute_node_try fac node n s))) (node_tasks s)"
  by (simp add: complete_task_def Let_def execute_node_except_def split: sum.splits exn.splits)

lemma complete_task_outputs:
  "m \<noteq> n \<Longrightarrow> map_of (outputs (complete_task fac node n s)) m = map_of (outputs s) m"
  by (simp add: complete_task_def Let_def execute_node_except_def AList.update_conv'
      execute_node_try_outputs split: sum.splits exn.splits)

lemma complete_task_failed:
  "failed_nodes (complete_task fac node n s) \<subseteq> insert n (failed_nodes s)"
  "failed_nodes s \<subseteq> failed_nodes (complete_task fac node n s)"
  using execute_node_try_failed [where fac=fac and node=node and n=n and s=s]
  by (auto simp: complete_task_def Let_def execute_node_except_def split: sum.splits exn.splits)

lemma complete_task_events:
  "\<exists>es. events (complete_task fac node n s) = events s @ es \<and> node_events n es"
proof -
  obtain es where es: "events (snd (execute_node_try fac node n s)) = events s @ es" "node_events n es"
    using execute_node_try_events by blast
  then show ?thesis
    by (auto simp: complete_task_def Let_def execute_node_except_def
        intro: node_events_snoc_update split: sum.splits exn.splits)
qed


section \<open>What the awaits leave alone\<close>

lemma create_tasks_fields [simp]:
  "workflow (create_tasks ds s) = workflow s"
  "initial_inputs (create_tasks ds s) = initial_inputs s"
  "task_recorder (create_tasks ds s) = task_recorder s"
  "node_dict (create_tasks ds s) = node_dict s"
  "dependencies (create_tasks ds s) = dependencies s"
  "outputs (create_tasks ds s) = outputs s"
  "failed_nodes (create_tasks ds s) = failed_nodes s"
  unfolding create_tasks_def by (induction ds arbitrary: s; simp)+

lemma create_tasks_lookup:
  "map_of (node_tasks (create_tasks ds s)) m =
     (if m \<in> set ds \<and> map_of (node_tasks s) m = None then Some Scheduled else map_of (node_tasks s) m)"
  unfolding create_tasks_def
  by (induction ds arbitrary: s) (auto simp: get_async_task_lookup)

text \<open>
  What the awaits leave alone: the static fields, every task that has started, the
  output and the failure mark of a started task, and every output that is present.
\<close>

definition frame :: "executor \<Rightarrow> executor \<Rightarrow> bool" where
  "frame s s' \<longleftrightarrow>
     workflow s' = workflow s \<and> node_dict s' = node_dict s \<and> dependencies s' = dependencies s \<and>
     task_recorder s' = task_recorder s \<and> initial_inputs s' = initial_inputs s \<and>
     (\<forall>m t. map_of (node_tasks s) m = Some t \<longrightarrow> t \<noteq> Scheduled \<longrightarrow>
        map_of (node_tasks s') m = Some t \<and> map_of (outputs s') m = map_of (outputs s) m \<and>
        (m \<in> failed_nodes s' \<longleftrightarrow> m \<in> failed_nodes s)) \<and>
     (\<forall>m. map_of (node_tasks s) m \<noteq> None \<longrightarrow> map_of (node_tasks s') m \<noteq> None) \<and>
     (\<forall>m v. map_of (outputs s) m = Some v \<longrightarrow> map_of (outputs s') m = Some v) \<and>
     failed_nodes s \<subseteq> failed_nodes s'"

lemma frame_refl: "frame s s"
  by (simp add: frame_def)

lemma frame_trans: "frame s t \<Longrightarrow> frame t u \<Longrightarrow> frame s u"
  unfolding frame_def by (intro conjI allI impI; (simp; fail)?) (metis subset_trans)+

lemma frame_create: "frame s (get_async_task_for_node_execution n s)"
  by (auto simp: frame_def get_async_task_lookup)

lemma frame_finish:
  "map_of (node_tasks s) n = Some Scheduled \<Longrightarrow> frame s (set_task n t' (set_task n Running s))"
  by (auto simp: frame_def AList.update_conv')

lemma frame_body:
  assumes sch: "map_of (node_tasks s) n = Some Scheduled"
    and out: "map_of (outputs s) n = None"
    and fr: "frame (create_tasks (dependency_ids s n) (set_task n Running s)) s2"
  shows "frame s (complete_task fac node n s2)"
proof -
  let ?s1 = "create_tasks (dependency_ids s n) (set_task n Running s)"
  have t1: "map_of (node_tasks ?s1) m = (if m = n then Some Running else
      if m \<in> set (dependency_ids s n) \<and> map_of (node_tasks s) m = None then Some Scheduled
      else map_of (node_tasks s) m)" for m
    by (auto simp: create_tasks_lookup AList.update_conv')
  have other: "m \<noteq> n \<Longrightarrow> map_of (node_tasks (complete_task fac node n s2)) m = map_of (node_tasks s2) m" for m
    by (simp add: complete_task_tasks AList.update_conv')
  have self: "map_of (node_tasks (complete_task fac node n s2)) n \<noteq> None"
    by (simp add: complete_task_tasks AList.update_conv')
  show ?thesis
    unfolding frame_def
  proof (intro conjI allI impI)
    fix m t assume a: "map_of (node_tasks s) m = Some t" "t \<noteq> Scheduled"
    then have mn: "m \<noteq> n" using sch by auto
    from a mn have "map_of (node_tasks ?s1) m = Some t" by (simp add: t1)
    with fr a have b: "map_of (node_tasks s2) m = Some t" "map_of (outputs s2) m = map_of (outputs ?s1) m"
      "m \<in> failed_nodes s2 \<longleftrightarrow> m \<in> failed_nodes ?s1"
      unfolding frame_def by blast+
    show "map_of (node_tasks (complete_task fac node n s2)) m = Some t" using b mn other by simp
    show "map_of (outputs (complete_task fac node n s2)) m = map_of (outputs s) m"
      using b mn by (simp add: complete_task_outputs)
    show "m \<in> failed_nodes (complete_task fac node n s2) \<longleftrightarrow> m \<in> failed_nodes s"
      using b mn complete_task_failed [where fac=fac and node=node and n=n and s=s2] by auto
  next
    fix m assume a: "map_of (node_tasks s) m \<noteq> None"
    then have "map_of (node_tasks ?s1) m \<noteq> None" by (simp add: t1)
    with fr have "map_of (node_tasks s2) m \<noteq> None" unfolding frame_def by blast
    then show "map_of (node_tasks (complete_task fac node n s2)) m \<noteq> None"
      using other self by (cases "m = n") auto
  next
    fix m v assume a: "map_of (outputs s) m = Some v"
    then have mn: "m \<noteq> n" using out by auto
    from a fr have "map_of (outputs s2) m = Some v" unfolding frame_def by simp
    then show "map_of (outputs (complete_task fac node n s2)) m = Some v"
      using mn by (simp add: complete_task_outputs)
  next
    show "failed_nodes s \<subseteq> failed_nodes (complete_task fac node n s2)"
      using fr complete_task_failed(2) [where fac=fac and node=node and n=n and s=s2]
      unfolding frame_def by auto
  qed (use fr in \<open>simp_all add: frame_def\<close>)
qed



lemma create_tasks_frame: "frame s (create_tasks ds s)"
  by (rule create_tasks_rel) (auto intro: frame_refl frame_trans frame_create)

lemma frame_runningD:
  "frame s s' \<Longrightarrow> map_of (node_tasks s) n = Some Running \<Longrightarrow>
   map_of (node_tasks s') n = Some Running \<and> map_of (outputs s') n = map_of (outputs s) n"
  unfolding frame_def by blast

text \<open>
  With the frame known, a relation holds across every await as soon as it holds across
  the single steps: a handle is created, a scheduled task starts, a running task ends.
\<close>

lemma await_steps_aux:
  assumes rfl: "\<And>s. Q s s"
    and trans: "\<And>s t u. Q s t \<Longrightarrow> Q t u \<Longrightarrow> Q s u"
    and create: "\<And>n s. Q s (get_async_task_for_node_execution n s)"
    and start: "\<And>n s. map_of (node_tasks s) n = Some Scheduled \<Longrightarrow> Q s (set_task n Running s)"
    and keyerr: "\<And>n s. map_of (node_tasks s) n = Some Running \<Longrightarrow> map_of (node_dict s) n = None \<Longrightarrow>
        Q s (set_task n (Done (Inl (KeyError n))) s)"
    and memo: "\<And>n s v. map_of (node_tasks s) n = Some Running \<Longrightarrow> map_of (outputs s) n = Some v \<Longrightarrow>
        Q s (set_task n (Done (Inr v)) s)"
    and body: "\<And>n s node. map_of (node_tasks s) n = Some Running \<Longrightarrow>
        map_of (node_dict s) n = Some node \<Longrightarrow> map_of (outputs s) n = None \<Longrightarrow>
        Q s (complete_task fac node n s)"
  shows "await_task k fac n s = Some s' \<Longrightarrow> frame s s' \<and> Q s s'"
    and "await_all k fac ns s = Some s' \<Longrightarrow> frame s s' \<and> Q s s'"
proof -
  let ?P = "\<lambda>s s'. frame s s' \<and> Q s s'"
  have r: "\<And>s. ?P s s" by (simp add: frame_refl rfl)
  have t: "\<And>s t u. ?P s t \<Longrightarrow> ?P t u \<Longrightarrow> ?P s u" using frame_trans trans by blast
  have c: "\<And>n s. ?P s (get_async_task_for_node_execution n s)" by (simp add: frame_create create)
  have run1: "map_of (node_tasks (set_task n Running s)) n = Some Running" for n s
    by (simp add: AList.update_conv')
  have k: "?P s (set_task n (Done (Inl (KeyError n))) (set_task n Running s))"
    if "map_of (node_tasks s) n = Some Scheduled" "map_of (node_dict s) n = None" for n s
    using that frame_finish [OF that(1)] trans [OF start [OF that(1)] keyerr [OF run1]] by simp
  have m: "?P s (set_task n (Done (Inr v)) (set_task n Running s))"
    if "map_of (node_tasks s) n = Some Scheduled" "map_of (outputs s) n = Some v" for n s v
    using that frame_finish [OF that(1)] trans [OF start [OF that(1)] memo [OF run1]] by simp
  have b: "?P s (complete_task fac node n s2)"
    if sch: "map_of (node_tasks s) n = Some Scheduled" and nd: "map_of (node_dict s) n = Some node"
      and out: "map_of (outputs s) n = None"
      and p: "?P (create_tasks (dependency_ids s n) (set_task n Running s)) s2" for n s node s2
  proof -
    let ?s0 = "set_task n Running s"
    let ?s1 = "create_tasks (dependency_ids s n) ?s0"
    have q01: "Q ?s0 ?s1" by (rule create_tasks_rel) (auto intro: rfl trans create)
    have r1: "map_of (node_tasks ?s1) n = Some Running"
      by (simp add: create_tasks_lookup AList.update_conv')
    from p have fr: "frame ?s1 s2" and q12: "Q ?s1 s2" by simp_all
    from frame_runningD [OF fr r1] out
    have r2: "map_of (node_tasks s2) n = Some Running" and o2: "map_of (outputs s2) n = None" by simp_all
    from fr nd have nd2: "map_of (node_dict s2) n = Some node" by (simp add: frame_def)
    have "Q s (complete_task fac node n s2)"
      using trans [OF start [OF sch] trans [OF q01 trans [OF q12 body [OF r2 nd2 o2]]]] .
    with frame_body [OF sch out fr] show ?thesis by simp
  qed
  show "await_task k fac n s = Some s' \<Longrightarrow> frame s s' \<and> Q s s'"
    by (erule await_task_rel [where P="?P", rotated -1]) (fact r t c k m b)+
  show "await_all k fac ns s = Some s' \<Longrightarrow> frame s s' \<and> Q s s'"
    by (erule await_all_rel [where P="?P", rotated -1]) (fact r t c k m b)+
qed


section \<open>Counting handles, instances and invocations\<close>

text \<open>How often an event stands in the trace.\<close>

definition occurs :: "event \<Rightarrow> executor \<Rightarrow> nat" where
  "occurs e s = count_list (events s) e"

definition calls :: "string \<Rightarrow> executor \<Rightarrow> nat" where
  "calls n s = length (filter (is_call n) (events s))"

definition has_task :: "executor \<Rightarrow> string \<Rightarrow> nat" where
  "has_task s n = (if map_of (node_tasks s) n = None then 0 else 1)"

definition is_done :: "executor \<Rightarrow> string \<Rightarrow> nat" where
  "is_done s n = (case map_of (node_tasks s) n of Some (Done r) \<Rightarrow> 1 | _ \<Rightarrow> 0)"

text \<open>
  A handle is created for a node only while the node has none, and the factory and
  the instance of a node are used only by the task of the node as it ends.
\<close>

definition once :: "string \<Rightarrow> executor \<Rightarrow> executor \<Rightarrow> bool" where
  "once n s s' \<longleftrightarrow>
     occurs (AsyncCreateTask n) s' + has_task s n \<le> occurs (AsyncCreateTask n) s + has_task s' n \<and>
     occurs (RecorderCreateTask n) s' + has_task s n \<le> occurs (RecorderCreateTask n) s + has_task s' n \<and>
     occurs (FactoryCreateNode n Instance) s' + is_done s n \<le> occurs (FactoryCreateNode n Instance) s + is_done s' n \<and>
     calls n s' + is_done s n \<le> calls n s + is_done s' n"

definition seeded :: "string \<Rightarrow> executor \<Rightarrow> nat" where
  "seeded n s = occurs (FactoryCreateNode n InputSeed) s"

lemma once_refl: "once n s s"
  by (simp add: once_def)

lemma once_trans: "once n s t \<Longrightarrow> once n t u \<Longrightarrow> once n s u"
  unfolding once_def by linarith

lemma get_async_task_events':
  "events (get_async_task_for_node_execution n s) =
     events s @ (if map_of (node_tasks s) n \<noteq> None then []
                 else AsyncCreateTask n # (if task_recorder s then [RecorderCreateTask n] else []))"
  by (simp add: get_async_task_events map_of_eq_None_keys)

lemma once_create: "once n s (get_async_task_for_node_execution m s)"
  by (auto simp: once_def occurs_def calls_def has_task_def is_done_def get_async_task_events'
      get_async_task_lookup)

lemma once_start:
  "map_of (node_tasks s) m = Some Scheduled \<Longrightarrow> once n s (set_task m Running s)"
  by (auto simp: once_def occurs_def calls_def has_task_def is_done_def AList.update_conv')

lemma once_finish:
  "map_of (node_tasks s) m = Some Running \<Longrightarrow> once n s (set_task m (Done r) s)"
  by (auto simp: once_def occurs_def calls_def has_task_def is_done_def AList.update_conv')

lemma count_list_filter: "count_list xs x = length (filter (\<lambda>e. e = x) xs)"
  by (induction xs) auto

lemma node_events_count:
  assumes "node_events m es"
  shows "count_list es (AsyncCreateTask n) = 0" "count_list es (RecorderCreateTask n) = 0"
    "count_list es (FactoryCreateNode n InputSeed) = 0"
    "count_list es (FactoryCreateNode n SchemaOnly) = 0"
    "n \<noteq> m \<Longrightarrow> count_list es (FactoryCreateNode n Instance) = 0"
    "n \<noteq> m \<Longrightarrow> filter (is_call n) es = []"
    "count_list es (FactoryCreateNode m Instance) \<le> 1"
    "length (filter (is_call m) es) \<le> 1"
proof -
  have a: "\<forall>e\<in>set es. about m e" using assms by (simp add: node_events_def)
  show "count_list es (AsyncCreateTask n) = 0" "count_list es (RecorderCreateTask n) = 0"
    "count_list es (FactoryCreateNode n InputSeed) = 0"
    "count_list es (FactoryCreateNode n SchemaOnly) = 0"
    using a by (auto simp: count_list_0_iff)
  show "n \<noteq> m \<Longrightarrow> count_list es (FactoryCreateNode n Instance) = 0"
    using a by (auto simp: count_list_0_iff)
  show "n \<noteq> m \<Longrightarrow> filter (is_call n) es = []"
    using a by (auto simp: filter_empty_conv about_def is_call_def split: event.splits)
  show "count_list es (FactoryCreateNode m Instance) \<le> 1" "length (filter (is_call m) es) \<le> 1"
    using assms by (simp_all add: node_events_def count_list_filter)
qed

lemma once_body:
  assumes "map_of (node_tasks s) m = Some Running"
  shows "once n s (complete_task fac node m s)"
proof -
  obtain es where es: "events (complete_task fac node m s) = events s @ es" and ne: "node_events m es"
    using complete_task_events by blast
  have d: "is_done s m = 0" "is_done (complete_task fac node m s) m = 1"
    "has_task s m = 1" "has_task (complete_task fac node m s) m = 1"
    using assms by (simp_all add: is_done_def has_task_def complete_task_tasks AList.update_conv')
  have o: "n \<noteq> m \<Longrightarrow> is_done (complete_task fac node m s) n = is_done s n"
    "n \<noteq> m \<Longrightarrow> has_task (complete_task fac node m s) n = has_task s n"
    by (simp_all add: is_done_def has_task_def complete_task_tasks AList.update_conv')
  show ?thesis
    using node_events_count [OF ne] d o
    by (cases "n = m") (auto simp: once_def occurs_def calls_def es)
qed

lemma await_all_once: "await_all k fac ns s = Some s' \<Longrightarrow> once n s s'"
proof -
  assume a: "await_all k fac ns s = Some s'"
  have "frame s s' \<and> once n s s'"
    by (rule await_steps_aux(2) [OF _ _ _ _ _ _ _ a])
       (auto intro: once_refl once_trans once_create once_body once_start once_finish)
  then show ?thesis by simp
qed

lemma seeded_body: "seeded n (complete_task fac node m s) = seeded n s"
proof -
  obtain es where es: "events (complete_task fac node m s) = events s @ es" and ne: "node_events m es"
    using complete_task_events by blast
  show ?thesis using node_events_count [OF ne] by (simp add: seeded_def occurs_def es)
qed

lemma seeded_create: "seeded n (get_async_task_for_node_execution m s) = seeded n s"
  by (simp add: seeded_def occurs_def get_async_task_events')

lemma seeded_set_task: "seeded n (set_task m t s) = seeded n s"
  by (simp add: seeded_def occurs_def)

lemma await_all_seeded: "await_all k fac ns s = Some s' \<Longrightarrow> seeded n s' = seeded n s"
proof -
  assume a: "await_all k fac ns s = Some s'"
  have "frame s s' \<and> seeded n s' = seeded n s"
    by (rule await_steps_aux(2) [where Q="\<lambda>s s'. seeded n s' = seeded n s", OF _ _ _ _ _ _ _ a])
       (simp_all add: seeded_body seeded_create seeded_set_task)
  then show ?thesis by simp
qed

lemma once_same:
  "events s' = events s \<Longrightarrow> node_tasks s' = node_tasks s \<Longrightarrow> once n s s'"
  by (simp add: once_def occurs_def calls_def has_task_def is_done_def)

lemma once_events:
  "events s' = events s @ es \<Longrightarrow> node_tasks s' = node_tasks s \<Longrightarrow>
   \<forall>e\<in>set es. (\<exists>m st er dp. e = RecorderUpdateTask m st er dp) \<or> (\<exists>m. e = FactoryCreateNode m SchemaOnly)
      \<or> (\<exists>m. e = FactoryCreateNode m InputSeed) \<or> (\<exists>m inp. e = NodeCall m InputSeed inp) \<Longrightarrow>
   once n s s'"
proof -
  assume a: "events s' = events s @ es" "node_tasks s' = node_tasks s"
    and b: "\<forall>e\<in>set es. (\<exists>m st er dp. e = RecorderUpdateTask m st er dp) \<or> (\<exists>m. e = FactoryCreateNode m SchemaOnly)
      \<or> (\<exists>m. e = FactoryCreateNode m InputSeed) \<or> (\<exists>m inp. e = NodeCall m InputSeed inp)"
  have "count_list es (AsyncCreateTask n) = 0" "count_list es (RecorderCreateTask n) = 0"
    "count_list es (FactoryCreateNode n Instance) = 0"
    using b by (auto simp: count_list_0_iff)
  moreover have "filter (is_call n) es = []"
    using b by (auto simp: filter_empty_conv)
  ultimately show ?thesis
    using a by (simp add: once_def occurs_def calls_def has_task_def is_done_def)
qed

text \<open>The precomputed outputs: only the factory is called, for the schema.\<close>

definition schema_only :: "executor \<Rightarrow> executor \<Rightarrow> bool" where
  "schema_only s s' \<longleftrightarrow>
     workflow s' = workflow s \<and> node_dict s' = node_dict s \<and> dependencies s' = dependencies s \<and>
     task_recorder s' = task_recorder s \<and> initial_inputs s' = initial_inputs s \<and>
     node_tasks s' = node_tasks s \<and> failed_nodes s' = failed_nodes s \<and>
     (\<exists>es. events s' = events s @ es \<and> (\<forall>e\<in>set es. \<exists>m. e = FactoryCreateNode m SchemaOnly))"

lemma schema_only_refl: "schema_only s s"
  by (simp add: schema_only_def)

lemma schema_only_trans: "schema_only s t \<Longrightarrow> schema_only t u \<Longrightarrow> schema_only s u"
  unfolding schema_only_def by (elim conjE exE) (simp, metis Un_iff)

lemma precomputed_entry_schema_only: "schema_only s (snd (precomputed_entry fac nid pre s))"
  by (auto simp: precomputed_entry_def schema_only_def Let_def split: precomputed.splits option.splits sum.splits)

lemma precomputed_loop_schema_only: "schema_only s (snd (precomputed_loop fac pres s))"
proof (induction pres arbitrary: s)
  case Nil
  show ?case by (simp add: schema_only_refl)
next
  case (Cons p pres)
  obtain nid pre where p: "p = (nid, pre)" by (cases p)
  obtain e s1 where e: "precomputed_entry fac nid pre s = (e, s1)" by (cases "precomputed_entry fac nid pre s")
  have 1: "schema_only s s1" using precomputed_entry_schema_only [of s fac nid pre] e by simp
  show ?case
  proof (cases e)
    case None
    with p e 1 Cons [of s1] show ?thesis by (auto intro: schema_only_trans)
  next
    case (Some x)
    with p e 1 show ?thesis by simp
  qed
qed

lemma schema_only_once: "schema_only s s' \<Longrightarrow> once n s s'"
  unfolding schema_only_def by (elim conjE exE, rule once_events) auto

lemma schema_only_seeded: "schema_only s s' \<Longrightarrow> seeded n s' = seeded n s"
  unfolding schema_only_def by (elim conjE exE) (auto simp: seeded_def occurs_def count_list_0_iff)


text \<open>The sweep: updates of the recorder, outputs and failure marks.\<close>

definition swept :: "executor \<Rightarrow> executor \<Rightarrow> bool" where
  "swept s s' \<longleftrightarrow>
     workflow s' = workflow s \<and> node_dict s' = node_dict s \<and> dependencies s' = dependencies s \<and>
     task_recorder s' = task_recorder s \<and> initial_inputs s' = initial_inputs s \<and>
     node_tasks s' = node_tasks s \<and>
     (\<exists>es. events s' = events s @ es \<and> (\<forall>e\<in>set es. \<exists>m. e = RecorderUpdateTask m PENDING NoError True))"

lemma swept_refl: "swept s s"
  by (simp add: swept_def)

lemma swept_trans: "swept s t \<Longrightarrow> swept t u \<Longrightarrow> swept s u"
  unfolding swept_def by (elim conjE exE) (simp, metis Un_iff)

fun is_pause :: "exn \<Rightarrow> bool" where
  "is_pause (PauseException pn pout) = True"
| "is_pause e = False"

lemma sweep_failure:
  "\<not> is_pause e \<Longrightarrow>
   sweep k ((nid, Inl e) # rest) paused s =
     (if truthy paused \<and> task_recorder s then
        (case is_downstream k (dependencies s) (the paused) nid of
           None \<Rightarrow> None
         | Some True \<Rightarrow> sweep k rest paused (update_task nid PENDING NoError True s)
         | Some False \<Rightarrow> sweep k rest paused (set_output nid None (add_failed nid s)))
      else sweep k rest paused (set_output nid None (add_failed nid s)))"
  by (cases e) simp_all

lemma swept_update: "swept s (update_task nid PENDING NoError True s)"
  by (simp add: swept_def)

lemma swept_failed: "swept s (set_output nid None (add_failed nid s))"
  by (simp add: swept_def)

lemma sweep_swept: "sweep k rs paused s = Some (paused', s') \<Longrightarrow> swept s s'"
proof (induction rs arbitrary: paused s)
  case Nil
  then show ?case by (simp add: swept_refl)
next
  case (Cons x rs)
  obtain nid r where x: "x = (nid, r)" by (cases x)
  show ?case
  proof (cases r)
    case (Inr v)
    with Cons x show ?thesis by simp
  next
    case (Inl e)
    show ?thesis
    proof (cases "is_pause e")
      case True
      then obtain pn pout where "e = PauseException pn pout" by (cases e) auto
      with Cons x Inl show ?thesis by simp
    next
      case False
      from Cons.prems x Inl sweep_failure [OF False]
      consider "sweep k rs paused (update_task nid PENDING NoError True s) = Some (paused', s')"
        | "sweep k rs paused (set_output nid None (add_failed nid s)) = Some (paused', s')"
        by (auto split: if_splits option.splits bool.splits)
      then show ?thesis
      proof cases
        case 1
        from swept_trans [OF swept_update Cons.IH [OF 1]] show ?thesis .
      next
        case 2
        from swept_trans [OF swept_failed Cons.IH [OF 2]] show ?thesis .
      qed
    qed
  qed
qed

lemma swept_once:
  assumes "swept s s'"
  shows "once n s s'"
proof -
  from assms obtain es where e: "events s' = events s @ es" and t: "node_tasks s' = node_tasks s"
    and b: "\<forall>e\<in>set es. \<exists>m. e = RecorderUpdateTask m PENDING NoError True"
    unfolding swept_def by blast
  show ?thesis by (rule once_events [OF e t]) (use b in blast)
qed

lemma swept_seeded: "swept s s' \<Longrightarrow> seeded n s' = seeded n s"
  unfolding swept_def by (elim conjE exE) (auto simp: seeded_def occurs_def count_list_0_iff)

lemma create_tasks_once: "once n s (create_tasks ds s)"
  by (rule create_tasks_rel) (auto intro: once_refl once_trans once_create)

lemma create_tasks_seeded: "seeded n (create_tasks ds s) = seeded n s"
  by (rule create_tasks_rel [where P="\<lambda>s s'. seeded n s' = seeded n s"]) (simp_all add: seeded_create)

lemma run_tasks_once:
  assumes "run_tasks k fac node_ids s = Some (r, s')"
  shows "once n s s' \<and> seeded n s' = seeded n s"
proof -
  let ?s1 = "s\<lparr>outputs := foldl (\<lambda>out n. AList.delete n out) (outputs s) (nodes_to_run s node_ids)\<rparr>"
  let ?s2 = "create_tasks (nodes_to_run s node_ids) ?s1"
  let ?aw = "map fst (node_tasks ?s2)"
  from assms obtain s3 paused where
    aw: "await_all k fac ?aw ?s2 = Some s3"
    and sw: "sweep k (zip ?aw (map (task_result s3) ?aw)) None s3 = Some (paused, s')"
    unfolding run_tasks_def Let_def by (auto split: option.splits prod.splits)
  have 1: "once n s ?s1" "seeded n ?s1 = seeded n s"
    by (simp_all add: once_same seeded_def occurs_def)
  have 2: "once n ?s1 ?s2" "seeded n ?s2 = seeded n ?s1"
    by (rule create_tasks_once, rule create_tasks_seeded)
  have 3: "once n ?s2 s3" "seeded n s3 = seeded n ?s2"
    using aw by (rule await_all_once, rule await_all_seeded)
  have 4: "once n s3 s'" "seeded n s' = seeded n s3"
    using sweep_swept [OF sw] by (rule swept_once, rule swept_seeded)
  from 1 2 3 4 show ?thesis
    using once_trans by (metis (no_types))
qed

lemma run_body_once:
  assumes "run_body k fac input node_ids pre s = Some (r, s')"
  shows "once n s s' \<and> seeded n s' \<le> seeded n s + 1"
proof -
  obtain e s1 where pl: "precomputed_loop fac pre s = (e, s1)" by (cases "precomputed_loop fac pre s")
  have so: "schema_only s s1" using precomputed_loop_schema_only [of s fac pre] pl by simp
  note o1 = schema_only_once [OF so, of n] and d1 = schema_only_seeded [OF so, of n]
  show ?thesis
  proof (cases e)
    case (Some x)
    with assms pl have "s' = s1" by (simp add: run_body_def)
    with o1 d1 show ?thesis by simp
  next
    case None
    note e = this
    show ?thesis
    proof (cases "find is_top_level_input (nodes (workflow s1))")
      case None
      with assms pl e have "s' = s1" by (simp add: run_body_def)
      with o1 d1 show ?thesis by simp
    next
      case (Some input_node)
      let ?i = "node_id input_node"
      let ?s2 = "log (FactoryCreateNode ?i InputSeed)
                   (s1\<lparr>initial_inputs := AList.update ?i input (initial_inputs s1)\<rparr>)"
      have o2: "once n s1 ?s2" by (rule once_events [where es="[FactoryCreateNode ?i InputSeed]"]) simp_all
      have d2: "seeded n ?s2 \<le> seeded n s1 + 1" by (simp add: seeded_def occurs_def)
      show ?thesis
      proof (cases "fac (title input_node) (node_type input_node) (config input_node)")
        case (Inl x)
        with assms pl e Some have "s' = ?s2" by (simp add: run_body_def Let_def)
        with o1 d1 o2 d2 show ?thesis using once_trans by auto
      next
        case (Inr obj)
        let ?inp = "map (\<lambda>kv. (fst kv, InitialValue (snd kv))) input"
        let ?s3 = "log (NodeCall ?i InputSeed ?inp) ?s2"
        have o3: "once n ?s2 ?s3" by (rule once_events [where es="[NodeCall ?i InputSeed ?inp]"]) simp_all
        have d3: "seeded n ?s3 = seeded n ?s2" by (simp add: seeded_def occurs_def)
        show ?thesis
        proof (cases "call obj ?inp")
          case (Inl x)
          with assms pl e Some Inr have "s' = ?s3" by (simp add: run_body_def Let_def)
          with o1 d1 o2 d2 o3 d3 show ?thesis using once_trans by (metis (no_types))
        next
          case (Inr out)
          let ?s4 = "set_output ?i (Some out) ?s3"
          from assms pl e Some \<open>fac _ _ _ = Inr obj\<close> Inr
          have rt: "run_tasks k fac node_ids ?s4 = Some (r, s')" by (simp add: run_body_def Let_def)
          have o4: "once n ?s3 ?s4" by (rule once_same) simp_all
          have d4: "seeded n ?s4 = seeded n ?s3" by (simp add: seeded_def occurs_def)
          from run_tasks_once [OF rt, of n] have o5: "once n ?s4 s'" and d5: "seeded n s' = seeded n ?s4" by simp_all
          have "once n s s'"
            using once_trans [OF o1 once_trans [OF o2 once_trans [OF o3 once_trans [OF o4 o5]]]] .
          moreover have "seeded n s' \<le> seeded n s + 1" using d1 d2 d3 d4 d5 by simp
          ultimately show ?thesis by simp
        qed
      qed
    qed
  qed
qed


section \<open>Examples: the workflow of the module's main block\<close>

text \<open>
  Nodes whose title is their id, links without a handle, and a factory whose instances
  behave by node type: a router takes the route \<^verbatim>\<open>yes\<close>, a human-intervention node
  pauses and blocks the node \<^verbatim>\<open>D\<close>, a failing node raises, any other node returns
  the number of its inputs.
\<close>

definition mk_node :: "string \<Rightarrow> string \<Rightarrow> workflow_node" where
  "mk_node i ty = WorkflowNodeSchema i i ty [] None"

definition mk_link :: "string \<Rightarrow> string \<Rightarrow> workflow_link" where
  "mk_link src tgt = \<lparr> source_id = src, target_id = tgt, source_handle = None \<rparr>"

definition example_call :: "string \<Rightarrow> string \<Rightarrow> (string \<times> input_value) list \<Rightarrow> exn + node_output" where
  "example_call t ty inp =
     (if ty = ''RouterNode'' then
        Inr (RouterNodeOutput [(''yes'', Some (BaseNodeOutput [])), (''no'', None)])
      else if ty = ''HumanInterventionNode'' then
        Inl (PauseException t (Some (HumanInterventionNodeOutput [''D''] None)))
      else if ty = ''FailingNode'' then Inl (NodeError ''boom'')
      else Inr (BaseNodeOutput [(''inputs'', PInt (int (length inp)))]))"

definition example_factory :: node_factory where
  "example_factory t ty c =
     Inr \<lparr> call = example_call t ty,
           output_model = Some (\<lambda>d. Inr (BaseNodeOutput (map (\<lambda>kv. (str_key (fst kv), snd kv)) d))) \<rparr>"

definition main_workflow :: workflow_definition where
  "main_workflow =
     \<lparr> nodes = [mk_node ''input_node'' ''InputNode'', mk_node ''bon_node'' ''BestOfNNode'',
                mk_node ''output_node'' ''OutputNode''],
       links = [mk_link ''input_node'' ''bon_node'', mk_link ''bon_node'' ''output_node''] \<rparr>"

definition main_executor :: executor where
  "main_executor =
     \<lparr> workflow = main_workflow, initial_inputs = [], task_recorder = True,
       node_dict = [(''input_node'', mk_node ''input_node'' ''InputNode''),
                    (''bon_node'', mk_node ''bon_node'' ''BestOfNNode''),
                    (''output_node'', mk_node ''output_node'' ''OutputNode'')],
       dependencies = [(''input_node'', []), (''bon_node'', [''input_node'']),
                       (''output_node'', [''bon_node''])],
       outputs = [], failed_nodes = {}, node_tasks = [], events = [] \<rparr>"

definition question :: "(string \<times> pyval) list" where
  "question = [(''question'', PStr ''Is altruism inherently selfish?'')]"

lemma init_main_workflow: "init main_workflow [] True = Inr main_executor"
  by code_simp

text \<open>
  C1, as amended. In one call of \<^verbatim>\<open>run\<close>, for every node id: the recorder's
  \<^verbatim>\<open>create_task\<close> is called at most once and at most one asyncio task is created
  (\<^verbatim>\<open>_get_async_task_for_node_execution\<close> creates a handle only for a node that has
  none); \<^verbatim>\<open>_execute_node\<close> calls the factory for the node at most once and awaits
  its instance at most once; and \<^verbatim>\<open>run\<close> itself calls the factory at most once more,
  to seed the output of the input node.
\<close>

theorem run_creates_each_handle_once:
  assumes "run k fac input node_ids precomputed_outputs s = Some (r, s')"
  shows "occurs (RecorderCreateTask n) s' \<le> occurs (RecorderCreateTask n) s + 1 \<and>
         occurs (AsyncCreateTask n) s' \<le> occurs (AsyncCreateTask n) s + 1 \<and>
         occurs (FactoryCreateNode n Instance) s' \<le> occurs (FactoryCreateNode n Instance) s + 1 \<and>
         calls n s' \<le> calls n s + 1 \<and>
         seeded n s' \<le> seeded n s + 1"
proof -
  from assms obtain r0 where "run_body k fac input node_ids precomputed_outputs s = Some (r0, s')"
    by (auto simp: run_def)
  from run_body_once [OF this, of n] have "once n s s'" and sd: "seeded n s' \<le> seeded n s + 1"
    by simp_all
  moreover have "has_task s' n \<le> 1" "is_done s' n \<le> 1"
    by (simp_all add: has_task_def is_done_def split: option.splits task.splits)
  ultimately show ?thesis unfolding once_def by linarith
qed

theorem run_creates_each_handle_once_witness:
  "init main_workflow [] True = Inr main_executor \<and>
   run 4 example_factory question [] [] main_executor \<noteq> None \<and>
   occurs (RecorderCreateTask ''bon_node'') (snd (the (run 4 example_factory question [] [] main_executor))) = 1 \<and>
   occurs (AsyncCreateTask ''bon_node'') (snd (the (run 4 example_factory question [] [] main_executor))) \<le> 1 \<and>
   occurs (FactoryCreateNode ''bon_node'' Instance) (snd (the (run 4 example_factory question [] [] main_executor))) \<le> 1 \<and>
   calls ''bon_node'' (snd (the (run 4 example_factory question [] [] main_executor))) \<le> 1"
proof -
  have ne: "run 4 example_factory question [] [] main_executor \<noteq> None" by code_simp
  then obtain r s' where e: "run 4 example_factory question [] [] main_executor = Some (r, s')"
    by (cases "run 4 example_factory question [] [] main_executor") auto
  have z: "events main_executor = []" by (simp add: main_executor_def)
  have one: "occurs (RecorderCreateTask ''bon_node'') (snd (the (run 4 example_factory question [] [] main_executor))) = 1"
    by code_simp
  from run_creates_each_handle_once [OF e, of "''bon_node''"] show ?thesis
    using e ne one init_main_workflow by (simp add: occurs_def calls_def z)
qed

text \<open>
  C1 as stated fails: on the workflow of the main block the factory instantiates the
  input node twice in one run, once when \<^verbatim>\<open>run\<close> seeds its output and once when
  its task executes it (its seeded output is dropped because it is a node to run).
\<close>

theorem input_node_instantiated_twice:
  "init main_workflow [] True = Inr main_executor \<and>
   seeded ''input_node'' (snd (the (run 4 example_factory question [] [] main_executor))) +
   occurs (FactoryCreateNode ''input_node'' Instance) (snd (the (run 4 example_factory question [] [] main_executor))) = 2"
  by code_simp


section \<open>A workflow without an input node\<close>

definition no_input_workflow :: workflow_definition where
  "no_input_workflow =
     \<lparr> nodes = [mk_node ''bon_node'' ''BestOfNNode'', mk_node ''output_node'' ''OutputNode''],
       links = [mk_link ''bon_node'' ''output_node''] \<rparr>"

definition no_input_executor :: executor where
  "no_input_executor =
     \<lparr> workflow = no_input_workflow, initial_inputs = [], task_recorder = True,
       node_dict = [(''bon_node'', mk_node ''bon_node'' ''BestOfNNode''),
                    (''output_node'', mk_node ''output_node'' ''OutputNode'')],
       dependencies = [(''bon_node'', []), (''output_node'', [''bon_node''])],
       outputs = [], failed_nodes = {}, node_tasks = [], events = [] \<rparr>"

lemma init_no_input_workflow: "init no_input_workflow [] True = Inr no_input_executor"
  by code_simp

text \<open>
  C10, as amended. When no node of the workflow is an input node with a falsy
  \<^verbatim>\<open>parent_id\<close> (null or empty), \<^verbatim>\<open>run\<close> ends with an exception whatever its
  arguments are, and what it has done by then is to call the factory for the schemas
  of precomputed outputs: no handle is created and no node is invoked. When the loop
  over the precomputed outputs raises nothing, the body of \<^verbatim>\<open>run\<close> raises
  \<^verbatim>\<open>StopIteration\<close> at the unguarded \<^verbatim>\<open>next\<close>, and the awaiting caller receives
  \<^verbatim>\<open>RuntimeError("coroutine raised StopIteration")\<close>, because \<^verbatim>\<open>run\<close> is a coroutine.
\<close>

theorem run_without_input_node:
  assumes "find is_top_level_input (nodes (workflow s)) = None"
  shows "(\<exists>e. run k fac input node_ids precomputed_outputs s =
              Some (Inl e, snd (precomputed_loop fac precomputed_outputs s))) \<and>
         schema_only s (snd (precomputed_loop fac precomputed_outputs s)) \<and>
         (fst (precomputed_loop fac precomputed_outputs s) = None \<longrightarrow>
            run_body k fac input node_ids precomputed_outputs s =
              Some (Inl StopIteration, snd (precomputed_loop fac precomputed_outputs s)) \<and>
            run k fac input node_ids precomputed_outputs s =
              Some (Inl (RuntimeError ''coroutine raised StopIteration''),
                    snd (precomputed_loop fac precomputed_outputs s))) \<and>
         run k fac input node_ids [] s = Some (Inl (RuntimeError ''coroutine raised StopIteration''), s)"
proof -
  obtain e s1 where pl: "precomputed_loop fac precomputed_outputs s = (e, s1)"
    by (cases "precomputed_loop fac precomputed_outputs s")
  have so: "schema_only s s1" using precomputed_loop_schema_only [of s fac precomputed_outputs] pl by simp
  then have w: "find is_top_level_input (nodes (workflow s1)) = None"
    using assms by (simp add: schema_only_def)
  have 1: "run_body k fac input node_ids precomputed_outputs s =
      Some (Inl (case e of None \<Rightarrow> StopIteration | Some x \<Rightarrow> x), s1)"
    using pl w by (simp add: run_body_def split: option.splits)
  have 2: "run k fac input node_ids [] s = Some (Inl (RuntimeError ''coroutine raised StopIteration''), s)"
    using assms by (simp add: run_def run_body_def coroutine_def)
  from 1 have "\<exists>x. run k fac input node_ids precomputed_outputs s = Some (Inl x, s1)"
    by (auto simp: run_def coroutine_def split: exn.splits)
  with 1 2 so pl show ?thesis by (auto simp: run_def coroutine_def)
qed

theorem run_without_input_node_witness:
  "find is_top_level_input (nodes (workflow no_input_executor)) = None \<and>
   fst (precomputed_loop example_factory [] no_input_executor) = None \<and>
   run_body 4 example_factory question [] [] no_input_executor = Some (Inl StopIteration, no_input_executor) \<and>
   run 4 example_factory question [] [] no_input_executor =
     Some (Inl (RuntimeError ''coroutine raised StopIteration''), no_input_executor)"
proof -
  have a: "find is_top_level_input (nodes (workflow no_input_executor)) = None"
    by (simp add: no_input_executor_def no_input_workflow_def is_top_level_input_def mk_node_def)
  from run_without_input_node [OF a, of 4 example_factory question "[]" "[]"] a show ?thesis
    by simp
qed

text \<open>
  C10 as stated fails on the exception the caller gets: awaiting \<^verbatim>\<open>run\<close> on a workflow
  without an input node raises \<^verbatim>\<open>RuntimeError\<close>, not \<^verbatim>\<open>StopIteration\<close>.
\<close>

theorem run_without_input_node_raises_runtime_error:
  "init no_input_workflow [] True = Inr no_input_executor \<and>
   fst (the (run 4 example_factory question [] [] no_input_executor)) =
     Inl (RuntimeError ''coroutine raised StopIteration'') \<and>
   fst (the (run 4 example_factory question [] [] no_input_executor)) \<noteq> Inl StopIteration"
  by code_simp


section \<open>What the constructor checks and what is checked later\<close>

lemma py_dict_keys_aux:
  "fst ` set (foldl (\<lambda>d kv. AList.update (fst kv) (snd kv) d) acc xs) = fst ` set acc \<union> fst ` set xs"
  by (induction xs arbitrary: acc) (auto simp: AList.dom_update)

lemma py_dict_keys: "fst ` set (py_dict xs) = fst ` set xs"
  by (simp add: py_dict_def py_dict_keys_aux)

lemma add_links_ok:
  "(\<exists>d. add_links ls deps = Inr d) \<longleftrightarrow> (\<forall>l\<in>set ls. target_id l \<in> fst ` set deps)"
proof (induction ls arbitrary: deps)
  case Nil
  show ?case by simp
next
  case (Cons l ls)
  show ?case
  proof (cases "map_of deps (target_id l)")
    case None
    moreover from None have "target_id l \<notin> fst ` set deps" by (simp add: map_of_eq_None_keys)
    ultimately show ?thesis by simp
  next
    case (Some ds)
    then have k: "target_id l \<in> fst ` set deps" by (metis map_of_eq_None_keys option.distinct(1))
    have "fst ` set (AList.update (target_id l) (set_add (source_id l) ds) deps) = fst ` set deps"
      using k by (auto simp: AList.dom_update)
    with Cons [of "AList.update (target_id l) (set_add (source_id l) ds) deps"] Some k
    show ?thesis by simp
  qed
qed

lemma add_links_error:
  "add_links ls deps = Inl e \<Longrightarrow> \<exists>l\<in>set ls. e = KeyError (target_id l)"
  by (induction ls arbitrary: deps) (auto split: option.splits)

lemma source_handles_loop_ok:
  "(\<exists>hs. source_handles_loop nd ls acc = Inr hs) \<longleftrightarrow>
   (\<forall>l\<in>set ls. case map_of nd (source_id l) of
        None \<Rightarrow> False
      | Some src \<Rightarrow> node_type src = ''RouterNode'' \<longrightarrow> truthy (source_handle l))"
  by (induction nd ls acc rule: source_handles_loop.induct)
     (auto simp: truthy_def split: option.splits)

text \<open>The links a constructed executor accepts although the graph is not valid.\<close>

definition link_resolves :: "workflow_definition \<Rightarrow> workflow_link \<Rightarrow> bool" where
  "link_resolves w l \<longleftrightarrow> source_id l \<in> node_id ` set (nodes w) \<and> target_id l \<in> node_id ` set (nodes w)"

definition handles_present :: "executor \<Rightarrow> bool" where
  "handles_present s =
     (\<forall>l\<in>set (links (workflow s)).
        case map_of (node_dict s) (source_id l) of
          None \<Rightarrow> False
        | Some src \<Rightarrow> node_type src = ''RouterNode'' \<longrightarrow> truthy (source_handle l))"

lemma execute_node_try_handles_error:
  assumes "predecessor_outputs (node_tasks s) (dependency_ids s n) = Some pouts"
    and "\<not> blocked_by_pause s n (dependency_ids s n)"
    and "\<not> list_ex (\<lambda>d. d \<in> failed_nodes s) (dependency_ids s n)"
    and "node_type node = ''CoalesceNode'' \<or> \<not> list_ex (\<lambda>out. out = None) pouts"
    and "get_source_handles s = Inl e"
  shows "execute_node_try fac node n s = (Inl e, s)"
  using assms by (auto simp: execute_node_try_def Let_def)

lemma source_handles_loop_error:
  "source_handles_loop nd ls acc = Inl e \<Longrightarrow>
   \<exists>l\<in>set ls. e = KeyError (source_id l) \<or> e = missing_handle (source_id l) (target_id l)"
  by (induction nd ls acc rule: source_handles_loop.induct)
     (auto split: option.splits if_splits)

lemma init_ok:
  "(\<exists>s. init w inputs recorder = Inr s) \<longleftrightarrow> (\<forall>l\<in>set (links w). target_id l \<in> node_id ` set (nodes w))"
proof -
  have "fst ` set (py_dict (map (\<lambda>n. (node_id n, []::string list)) (nodes w))) = node_id ` set (nodes w)"
    by (simp add: py_dict_keys image_image)
  then have "(\<exists>d. build_dependencies w = Inr d) \<longleftrightarrow> (\<forall>l\<in>set (links w). target_id l \<in> node_id ` set (nodes w))"
    unfolding build_dependencies_def by (simp add: add_links_ok)
  moreover have "(\<exists>s. init w inputs recorder = Inr s) \<longleftrightarrow> (\<exists>d. build_dependencies w = Inr d)"
    by (auto simp: init_def split: sum.splits)
  ultimately show ?thesis by simp
qed

lemma init_error:
  "init w inputs recorder = Inl e \<Longrightarrow> \<exists>l\<in>set (links w). e = KeyError (target_id l)"
  by (auto simp: init_def build_dependencies_def split: sum.splits dest: add_links_error)

text \<open>A router whose link to its consumer names no handle.\<close>

definition bad_router_workflow :: workflow_definition where
  "bad_router_workflow =
     \<lparr> nodes = [mk_node ''input_node'' ''InputNode'', mk_node ''R'' ''RouterNode'',
                mk_node ''C'' ''OutputNode''],
       links = [mk_link ''input_node'' ''R'', mk_link ''R'' ''C''] \<rparr>"

definition bad_router_executor :: executor where
  "bad_router_executor =
     \<lparr> workflow = bad_router_workflow, initial_inputs = [], task_recorder = True,
       node_dict = [(''input_node'', mk_node ''input_node'' ''InputNode''),
                    (''R'', mk_node ''R'' ''RouterNode''), (''C'', mk_node ''C'' ''OutputNode'')],
       dependencies = [(''input_node'', []), (''R'', [''input_node'']), (''C'', [''R''])],
       outputs = [], failed_nodes = {}, node_tasks = [], events = [] \<rparr>"

text \<open>
  C8, as amended. The constructor succeeds exactly when the target of every link is a
  node, and fails with \<^verbatim>\<open>KeyError\<close> otherwise; it looks neither at the source of a
  link nor at the handle of a link out of a router. Those are checked by
  \<^verbatim>\<open>_get_source_handles\<close>, which succeeds exactly when every source is a node and
  every link out of a router has a truthy handle, and raises \<^verbatim>\<open>KeyError\<close> or
  \<^verbatim>\<open>ValueError\<close> otherwise; it is called from \<^verbatim>\<open>_execute_node\<close>, where its exception
  becomes the exception of every node that has passed the pause, failure and null gates.
\<close>

theorem constructor_checks_targets_only:
  "((\<exists>s. init w inputs recorder = Inr s) \<longleftrightarrow>
      (\<forall>l\<in>set (links w). target_id l \<in> node_id ` set (nodes w))) \<and>
   (init w inputs recorder = Inl e \<longrightarrow> (\<exists>l\<in>set (links w). e = KeyError (target_id l))) \<and>
   ((\<exists>hs. get_source_handles s = Inr hs) \<longleftrightarrow> handles_present s) \<and>
   (get_source_handles s = Inl e' \<longrightarrow>
      (\<exists>l\<in>set (links (workflow s)).
          e' = KeyError (source_id l) \<or> e' = missing_handle (source_id l) (target_id l)) \<and>
      (predecessor_outputs (node_tasks s) (dependency_ids s n) = Some pouts \<longrightarrow>
       \<not> blocked_by_pause s n (dependency_ids s n) \<longrightarrow>
       \<not> list_ex (\<lambda>d. d \<in> failed_nodes s) (dependency_ids s n) \<longrightarrow>
       node_type node = ''CoalesceNode'' \<or> \<not> list_ex (\<lambda>out. out = None) pouts \<longrightarrow>
         execute_node_try fac node n s = (Inl e', s)))"
proof (intro conjI impI)
  show "(\<exists>s. init w inputs recorder = Inr s) \<longleftrightarrow>
      (\<forall>l\<in>set (links w). target_id l \<in> node_id ` set (nodes w))" by (rule init_ok)
  show "(\<exists>hs. get_source_handles s = Inr hs) \<longleftrightarrow> handles_present s"
    unfolding get_source_handles_def handles_present_def by (rule source_handles_loop_ok)
next
  assume "init w inputs recorder = Inl e"
  then show "\<exists>l\<in>set (links w). e = KeyError (target_id l)" by (rule init_error)
next
  assume "get_source_handles s = Inl e'"
  then show "\<exists>l\<in>set (links (workflow s)).
          e' = KeyError (source_id l) \<or> e' = missing_handle (source_id l) (target_id l)"
    unfolding get_source_handles_def by (rule source_handles_loop_error)
next
  assume "get_source_handles s = Inl e'"
    "predecessor_outputs (node_tasks s) (dependency_ids s n) = Some pouts"
    "\<not> blocked_by_pause s n (dependency_ids s n)"
    "\<not> list_ex (\<lambda>d. d \<in> failed_nodes s) (dependency_ids s n)"
    "node_type node = ''CoalesceNode'' \<or> \<not> list_ex (\<lambda>out. out = None) pouts"
  then show "execute_node_try fac node n s = (Inl e', s)"
    by (simp add: execute_node_try_handles_error)
qed

theorem constructor_checks_targets_only_witness:
  "init bad_router_workflow [] True = Inr bad_router_executor \<and>
   \<not> handles_present bad_router_executor \<and>
   get_source_handles bad_router_executor = Inl (missing_handle ''R'' ''C'') \<and>
   predecessor_outputs (node_tasks bad_router_executor) (dependency_ids bad_router_executor ''input_node'') = Some [] \<and>
   execute_node_try example_factory (mk_node ''input_node'' ''InputNode'') ''input_node'' bad_router_executor =
     (Inl (missing_handle ''R'' ''C''), bad_router_executor)"
proof -
  have i: "init bad_router_workflow [] True = Inr bad_router_executor" by code_simp
  have g: "get_source_handles bad_router_executor = Inl (missing_handle ''R'' ''C'')" by code_simp
  have p: "predecessor_outputs (node_tasks bad_router_executor) (dependency_ids bad_router_executor ''input_node'') = Some []"
    by code_simp
  have b: "\<not> blocked_by_pause bad_router_executor ''input_node'' (dependency_ids bad_router_executor ''input_node'')"
    by code_simp
  have f: "\<not> list_ex (\<lambda>d. d \<in> failed_nodes bad_router_executor) (dependency_ids bad_router_executor ''input_node'')"
    by code_simp
  note th = constructor_checks_targets_only [of bad_router_workflow "[]" True _ bad_router_executor
      "missing_handle ''R'' ''C''" "''input_node''" "[]" "mk_node ''input_node'' ''InputNode''" example_factory]
  from th i g p b f show ?thesis by auto
qed

text \<open>
  C8 as stated fails: the constructor accepts the workflow whose router link has no
  handle, and the \<^verbatim>\<open>ValueError\<close> appears during the run, as the failure of the first
  node that is executed; \<^verbatim>\<open>run\<close> itself returns.
\<close>

theorem missing_handle_surfaces_during_execution:
  "init bad_router_workflow [] True = Inr bad_router_executor \<and>
   get_source_handles bad_router_executor = Inl (missing_handle ''R'' ''C'') \<and>
   fst (the (run 4 example_factory question [] [] bad_router_executor)) = Inr [] \<and>
   RecorderUpdateTask ''input_node'' FAILED (Traceback (missing_handle ''R'' ''C'')) False
     \<in> set (events (snd (the (run 4 example_factory question [] [] bad_router_executor))))"
  by code_simp


section \<open>Hoisting children into subworkflows\<close>










lemma with_subworkflow_sel [simp]:
  "node_id (with_subworkflow cs ls n) = node_id n"
  "title (with_subworkflow cs ls n) = title n"
  "node_type (with_subworkflow cs ls n) = node_type n"
  "parent_id (with_subworkflow cs ls n) = parent_id n"
  "config (with_subworkflow cs ls n) = AList.update ''subworkflow'' (SubworkflowDump cs ls) (config n)"
  by (simp_all add: with_subworkflow_def)

lemma clear_parent_sel [simp]:
  "node_id (clear_parent n) = node_id n"
  "title (clear_parent n) = title n"
  "node_type (clear_parent n) = node_type n"
  "parent_id (clear_parent n) = None"
  "config (clear_parent n) = config n"
  by (simp_all add: clear_parent_def)














section \<open>A run on an acyclic workflow ends\<close>

















section \<open>Pauses and failures of nodes\<close>

text \<open>
  The input with which \<^verbatim>\<open>_execute_node\<close> reaches the instantiation of the node: the
  predecessors' tasks returned, the pause gate, the failure gate and the null gate
  let the node pass, the input was assembled and is not empty.
\<close>

definition assembled_input :: "executor \<Rightarrow> workflow_node \<Rightarrow> string \<Rightarrow> (string \<times> input_value) list option" where
  "assembled_input s node nid =
     (let deps = dependency_ids s nid in
      case predecessor_outputs (node_tasks s) deps of
        None \<Rightarrow> None
      | Some pouts \<Rightarrow>
          if blocked_by_pause s nid deps then None
          else if list_ex (\<lambda>d. d \<in> failed_nodes s) deps then None
          else if node_type node \<noteq> ''CoalesceNode'' \<and> list_ex (\<lambda>out. out = None) pouts then None
          else
            (case get_source_handles s of
               Inl e \<Rightarrow> None
             | Inr handles \<Rightarrow>
                 (case build_node_input (node_dict s) handles nid (zip deps pouts) [] of
                    Inl e \<Rightarrow> None
                  | Inr RouteNotTaken \<Rightarrow> None
                  | Inr (Assembled acc) \<Rightarrow>
                      if final_input s node nid acc = [] then None
                      else Some (final_input s node nid acc))))"


lemma execute_node_try_not_assembled:
  "assembled_input s node n = None \<Longrightarrow>
   filter (is_call n) (events (snd (execute_node_try fac node n s))) = filter (is_call n) (events s) \<and>
   filter (\<lambda>e. e = FactoryCreateNode n Instance) (events (snd (execute_node_try fac node n s))) =
     filter (\<lambda>e. e = FactoryCreateNode n Instance) (events s)"
  unfolding assembled_input_def execute_node_try_def Let_def
  by (auto simp: update_task_def log_def split: option.splits if_splits sum.splits assembled.splits)



text \<open>
  The pause scenario: the human-intervention node \<^verbatim>\<open>H\<close> pauses and blocks \<^verbatim>\<open>D\<close>;
  \<^verbatim>\<open>S\<close> is on another branch. In \<open>pause_ready\<close> the task of \<^verbatim>\<open>H\<close> has awaited
  its predecessor and is about to run the rest of its body.
\<close>

definition pause_workflow :: workflow_definition where
  "pause_workflow =
     \<lparr> nodes = [mk_node ''input_node'' ''InputNode'', mk_node ''H'' ''HumanInterventionNode'',
                mk_node ''D'' ''OutputNode'', mk_node ''S'' ''OutputNode''],
       links = [mk_link ''input_node'' ''H'', mk_link ''H'' ''D'', mk_link ''input_node'' ''S''] \<rparr>"

definition pause_executor :: executor where
  "pause_executor =
     \<lparr> workflow = pause_workflow, initial_inputs = [], task_recorder = True,
       node_dict = [(''input_node'', mk_node ''input_node'' ''InputNode''),
                    (''H'', mk_node ''H'' ''HumanInterventionNode''),
                    (''D'', mk_node ''D'' ''OutputNode''), (''S'', mk_node ''S'' ''OutputNode'')],
       dependencies = [(''input_node'', []), (''H'', [''input_node'']), (''D'', [''H'']),
                       (''S'', [''input_node''])],
       outputs = [], failed_nodes = {}, node_tasks = [], events = [] \<rparr>"

lemma init_pause_workflow: "init pause_workflow [] True = Inr pause_executor"
  by code_simp

definition input_output :: node_output where
  "input_output = BaseNodeOutput [(''inputs'', PInt 1)]"




text \<open>
  The failure scenario: the node \<^verbatim>\<open>F\<close> raises and \<^verbatim>\<open>O\<close> depends on it; no node
  pauses. In \<open>failing_ready\<close> the task of \<^verbatim>\<open>F\<close> has awaited its predecessor.
\<close>

definition failing_workflow :: workflow_definition where
  "failing_workflow =
     \<lparr> nodes = [mk_node ''input_node'' ''InputNode'', mk_node ''F'' ''FailingNode'',
                mk_node ''O'' ''OutputNode''],
       links = [mk_link ''input_node'' ''F'', mk_link ''F'' ''O''] \<rparr>"

definition failing_executor :: executor where
  "failing_executor =
     \<lparr> workflow = failing_workflow, initial_inputs = [], task_recorder = True,
       node_dict = [(''input_node'', mk_node ''input_node'' ''InputNode''),
                    (''F'', mk_node ''F'' ''FailingNode''), (''O'', mk_node ''O'' ''OutputNode'')],
       dependencies = [(''input_node'', []), (''F'', [''input_node'']), (''O'', [''F''])],
       outputs = [], failed_nodes = {}, node_tasks = [], events = [] \<rparr>"

lemma init_failing_workflow: "init failing_workflow [] True = Inr failing_executor"
  by code_simp






section \<open>Precomputed outputs\<close>

text \<open>
  A precomputed output for the middle node of the workflow of the main block; it
  validates against the output model of the node.
\<close>

definition supplied :: "(key \<times> pyval) list" where
  "supplied = [(KStr ''inputs'', PInt 7)]"

definition supplied_output :: node_output where
  "supplied_output = BaseNodeOutput [(''inputs'', PInt 7)]"

text \<open>
  C6. The docstring of \<^verbatim>\<open>__call__\<close> says of the nodes of \<^verbatim>\<open>precomputed_outputs\<close>
  that they ``will not be executed again'', and of an empty \<^verbatim>\<open>node_ids\<close> that all
  nodes run. With the default \<^verbatim>\<open>node_ids\<close> the supplied output of \<^verbatim>\<open>bon_node\<close> is
  validated and stored, then dropped with the outputs of all nodes to run: the factory
  creates an instance of \<^verbatim>\<open>bon_node\<close>, the instance is invoked, and its consumer
  \<^verbatim>\<open>output_node\<close> receives the new output instead of the supplied one. Only when
  \<^verbatim>\<open>node_ids\<close> is given without the node (here \<^verbatim>\<open>[output_node]\<close>) is the node
  left alone and its consumer given the supplied output.
\<close>

theorem precomputed_node_is_executed_again:
  "init main_workflow [] True = Inr main_executor \<and>
   precomputed_loop example_factory [(''bon_node'', PrecomputedDict supplied)] main_executor =
     (None, set_output ''bon_node'' (Some supplied_output)
              (log (FactoryCreateNode ''bon_node'' SchemaOnly) main_executor)) \<and>
   FactoryCreateNode ''bon_node'' Instance \<in> set (events (snd (the
     (run 4 example_factory question [] [(''bon_node'', PrecomputedDict supplied)] main_executor)))) \<and>
   NodeCall ''bon_node'' Instance [(''input_node'', OutputValue input_output)] \<in> set (events (snd (the
     (run 4 example_factory question [] [(''bon_node'', PrecomputedDict supplied)] main_executor)))) \<and>
   NodeCall ''output_node'' Instance [(''bon_node'', OutputValue input_output)] \<in> set (events (snd (the
     (run 4 example_factory question [] [(''bon_node'', PrecomputedDict supplied)] main_executor)))) \<and>
   fst (the (run 4 example_factory question [] [(''bon_node'', PrecomputedDict supplied)] main_executor)) =
     Inr [(''input_node'', input_output), (''bon_node'', input_output), (''output_node'', input_output)] \<and>
   calls ''bon_node'' (snd (the
     (run 4 example_factory question [''output_node''] [(''bon_node'', PrecomputedDict supplied)] main_executor))) = 0 \<and>
   NodeCall ''output_node'' Instance [(''bon_node'', OutputValue supplied_output)] \<in> set (events (snd (the
     (run 4 example_factory question [''output_node''] [(''bon_node'', PrecomputedDict supplied)] main_executor)))) \<and>
   fst (the (run 4 example_factory question [''output_node''] [(''bon_node'', PrecomputedDict supplied)] main_executor)) =
     Inr [(''bon_node'', supplied_output), (''input_node'', input_output), (''output_node'', input_output)]"
  by code_simp

end
